theory Spec2Isabelle
  imports Main "HOL-Library.AList" "HOL-Library.Sublist"
begin

section \<open>JavaScript values and errors\<close>

text \<open>
  The configuration slots that \<open>types-for-lists.ts\<close> inspects at run time
  (\<open>graphql.omit\<close>, \<open>defaultIsFilterable\<close>, \<open>isFilterable\<close>, ...) are typed in
  TypeScript, but the code checks them dynamically (\<open>typeof\<close>, \<open>===\<close>, \<open>!\<close>,
  \<open>??\<close>, \<open>.includes\<close>), so they are modelled as untyped values: the primitives,
  functions (by identity) and arrays. Numbers are the integers and \<open>NaN\<close>; in every
  operation used here a number that is not an integer behaves as a non-zero integer
  does. Objects other than arrays and functions are not part of this type.
\<close>

datatype jsval =
    JUndefined
  | JNull
  | JBool bool
  | JNum int
  | JNaN
  | JStr string
  | JFun nat
  | JArr "jsval list"

fun typeof :: "jsval \<Rightarrow> string" where
  "typeof JUndefined = ''undefined''"
| "typeof JNull = ''object''"
| "typeof (JBool b) = ''boolean''"
| "typeof (JNum n) = ''number''"
| "typeof JNaN = ''number''"
| "typeof (JStr s) = ''string''"
| "typeof (JFun f) = ''function''"
| "typeof (JArr xs) = ''object''"

text \<open>Truthiness, as \<open>!x\<close>, \<open>x && y\<close> and \<open>x ? a : b\<close> read it.\<close>

fun truthy :: "jsval \<Rightarrow> bool" where
  "truthy JUndefined = False"
| "truthy JNull = False"
| "truthy (JBool b) = b"
| "truthy (JNum n) = (n \<noteq> 0)"
| "truthy JNaN = False"
| "truthy (JStr s) = (s \<noteq> [])"
| "truthy (JFun f) = True"
| "truthy (JArr xs) = True"

text \<open>\<open>a ?? b\<close>: the right operand only when the left one is \<open>null\<close> or \<open>undefined\<close>.\<close>

definition nullish :: "jsval \<Rightarrow> jsval \<Rightarrow> jsval" where
  "nullish a b = (if a = JUndefined \<or> a = JNull then b else a)"

text \<open>
  The errors that abort resolution: the two \<open>throw new Error\<close> of the file, the
  \<open>TypeError\<close> that JavaScript raises when a property of \<open>undefined\<close>/\<open>null\<close> is read
  or a non-function is called, and the errors of the collaborators that are not part of
  this file (access-control parsing, relationship resolution, field assertions).
\<close>

datatype error =
    NotAFilter string string jsval
  | NotAFunction string string
  | TypeError
  | External string

text \<open>\<open>String.prototype.includes\<close>: the needle occurs as a contiguous substring.\<close>

fun str_includes :: "string \<Rightarrow> string \<Rightarrow> bool" where
  "str_includes [] n = (n = [])"
| "str_includes (c # cs) n = (prefix n (c # cs) \<or> str_includes cs n)"

text \<open>
  \<open>x.includes(s)\<close> for a string \<open>s\<close>: arrays and strings have the method; on every
  other value of \<open>jsval\<close> the call raises a \<open>TypeError\<close> (\<open>undefined\<close> and \<open>null\<close>
  have no properties, the others have no \<open>includes\<close>).
\<close>

fun js_includes :: "jsval \<Rightarrow> string \<Rightarrow> error + bool" where
  "js_includes (JArr xs) s = Inr (JStr s \<in> set xs)"
| "js_includes (JStr t) s = Inr (str_includes t s)"
| "js_includes JUndefined s = Inl TypeError"
| "js_includes JNull s = Inl TypeError"
| "js_includes (JBool b) s = Inl TypeError"
| "js_includes (JNum n) s = Inl TypeError"
| "js_includes JNaN s = Inl TypeError"
| "js_includes (JFun f) s = Inl TypeError"

section \<open>The data model\<close>

subsection \<open>Query-language fragments\<close>

text \<open>
  Types are kept symbolically. The input and output types that
  \<open>getListGraphqlTypes\<close> creates for a list are referred to by the list key.
\<close>

datatype gqlType =
    GInt
  | GID
  | GBoolean
  | GNonNull gqlType
  | GList gqlType
  | OutputType string
  | WhereUniqueInput string
  | WhereInput string
  | CreateInput string
  | UpdateInput string
  | OrderByInput string

datatype gqlValue =
    VObject "(string \<times> gqlValue) list"
  | VString string
  | VInt int
  | VList "gqlValue list"

text \<open>\<open>graphql.arg({ type, defaultValue })\<close>.\<close>

record arg =
  argType :: gqlType
  defaultValue :: "gqlValue option"

definition mkArg :: "gqlType \<Rightarrow> arg" where
  "mkArg t = \<lparr>argType = t, defaultValue = None\<rparr>"

definition mkArgDefault :: "gqlType \<Rightarrow> gqlValue \<Rightarrow> arg" where
  "mkArgDefault t v = \<lparr>argType = t, defaultValue = Some v\<rparr>"

datatype outputField = OutputField gqlType

subsection \<open>Storage fields\<close>

text \<open>
  The tagged variant \<open>DBField\<close>/\<open>ResolvedDBField\<close>: the relation variant
  (\<open>kind === 'relation'\<close>) carries the key of the referenced list (\<open>list\<close>) and the
  name of the field on the other side; the other variants carry their kind.
\<close>

datatype dbKind = Scalar | Enum | Multi | NoDB

datatype dbField =
    Relation string "string option"
  | NonRelation dbKind

subsection \<open>Enablement\<close>

text \<open>
  \<open>IsEnabled\<close> of a list and the \<open>isEnabled\<close> of a field. \<open>filter\<close> and \<open>orderBy\<close>
  are a boolean or a function in the types; at run time they hold whatever value
  reached them.
\<close>

record isEnabled =
  type_l :: bool
  query_l :: bool
  create_l :: bool
  update_l :: bool
  delete_l :: bool
  filter_l :: jsval
  orderBy_l :: jsval

record fieldIsEnabled =
  read_f :: bool
  create_f :: bool
  update_f :: bool
  filter_f :: jsval
  orderBy_f :: jsval

subsection \<open>Declarations\<close>

text \<open>
  \<open>field.input\<close>: each of \<open>where\<close>, \<open>uniqueWhere\<close>, \<open>create\<close>, \<open>update\<close>,
  \<open>orderBy\<close> is an optional object with an optional \<open>arg\<close>: \<open>None\<close> is an absent
  object, \<open>Some None\<close> an object without \<open>arg\<close>.
\<close>

record fieldInput =
  where_in :: "arg option option"
  uniqueWhere_in :: "arg option option"
  create_in :: "arg option option"
  update_in :: "arg option option"
  orderBy_in :: "arg option option"

text \<open>\<open>x?.arg\<close>\<close>

fun argOf :: "arg option option \<Rightarrow> arg option" where
  "argOf None = None"
| "argOf (Some a) = a"

text \<open>
  The descriptor a field constructor returns (\<open>NextFieldType\<close>), with the parts this
  file reads. \<open>'a\<close> is the type of raw access declarations.
\<close>

record 'a nextFieldType =
  isFilterable :: jsval
  isOrderable :: jsval
  omit_f :: jsval
  dbField_f :: dbField
  access_f :: 'a
  input_f :: fieldInput
  output_f :: "outputField option"
  extraOutputFields_f :: "(string \<times> outputField) list"

text \<open>
  The arguments a field constructor is called with. The type registry and the storage
  lookup it also receives are not used by anything modelled here and are left out.
\<close>

record fieldArgs =
  fieldKey_a :: string
  listKey_a :: string
  provider_a :: string

text \<open>
  An entry of \<open>list.fields\<close> is a function (the constructor) or, when the
  configuration is wrong, some other value.
\<close>

datatype 'a fieldDecl =
    NotFunc jsval
  | FieldFunc "fieldArgs \<Rightarrow> 'a nextFieldType"

record 'a listConfig =
  fields_c :: "(string \<times> 'a fieldDecl) list"
  omit_c :: jsval
  defaultIsFilterable :: jsval
  defaultIsOrderable :: jsval
  isSingleton_c :: "bool option"
  access_c :: 'a

text \<open>
  A JavaScript object used as a dictionary (\<open>Record<string, T>\<close>) is an association
  list in the order of \<open>Object.entries\<close>; its keys are distinct.
\<close>

type_synonym 'a listsConfig = "(string \<times> 'a listConfig) list"

record 'a keystoneConfig =
  lists_k :: "'a listsConfig"
  provider_k :: string

section \<open>The Enablement Resolver\<close>

definition throwIfNotAFilter :: "jsval \<Rightarrow> string \<Rightarrow> string \<Rightarrow> error + unit" where
  "throwIfNotAFilter x listKey fieldKey =
     (if typeof x \<in> set [''boolean'', ''undefined'', ''function''] then Inr ()
      else Inl (NotAFilter listKey fieldKey x))"

text \<open>Sequencing of fallible steps: the first error aborts.\<close>

definition andThen :: "error + 'x \<Rightarrow> ('x \<Rightarrow> error + 'y) \<Rightarrow> error + 'y" where
  "andThen m f = (case m of Inl e \<Rightarrow> Inl e | Inr x \<Rightarrow> f x)"

text \<open>The validation of the two list defaults, run only \<open>if (!omit)\<close>.\<close>

definition checkListDefaults :: "string \<Rightarrow> 'a listConfig \<Rightarrow> error + unit" where
  "checkListDefaults listKey listConfig =
     (if \<not> truthy (omit_c listConfig) then
        andThen (throwIfNotAFilter (defaultIsFilterable listConfig) listKey ''defaultIsFilterable'')
          (\<lambda>_. throwIfNotAFilter (defaultIsOrderable listConfig) listKey ''defaultIsOrderable'')
      else Inr ())"

text \<open>The body of the loop of \<open>getIsEnabled\<close>, for one entry of \<open>listsConfig\<close>.\<close>

definition getIsEnabled_entry :: "string \<Rightarrow> 'a listConfig \<Rightarrow> error + isEnabled" where
  "getIsEnabled_entry listKey listConfig =
     andThen (checkListDefaults listKey listConfig) (\<lambda>_.
       if omit_c listConfig = JBool True then
         Inr \<lparr>type_l = False, query_l = False, create_l = False, update_l = False,
              delete_l = False, filter_l = JBool False, orderBy_l = JBool False\<rparr>
       else if omit_c listConfig = JUndefined then
         Inr \<lparr>type_l = True, query_l = True, create_l = True, update_l = True,
              delete_l = True,
              filter_l = nullish (defaultIsFilterable listConfig) (JBool True),
              orderBy_l = nullish (defaultIsOrderable listConfig) (JBool True)\<rparr>
       else
         andThen (js_includes (omit_c listConfig) ''query'') (\<lambda>q.
         andThen (js_includes (omit_c listConfig) ''create'') (\<lambda>c.
         andThen (js_includes (omit_c listConfig) ''update'') (\<lambda>u.
         andThen (js_includes (omit_c listConfig) ''delete'') (\<lambda>d.
           Inr \<lparr>type_l = True, query_l = \<not> q, create_l = \<not> c, update_l = \<not> u,
                delete_l = \<not> d,
                filter_l = nullish (defaultIsFilterable listConfig) (JBool True),
                orderBy_l = nullish (defaultIsOrderable listConfig) (JBool True)\<rparr>)))))"

fun getIsEnabled :: "'a listsConfig \<Rightarrow> error + (string \<times> isEnabled) list" where
  "getIsEnabled [] = Inr []"
| "getIsEnabled ((listKey, listConfig) # rest) =
     andThen (getIsEnabled_entry listKey listConfig) (\<lambda>e.
     andThen (getIsEnabled rest) (\<lambda>r. Inr ((listKey, e) # r)))"

section \<open>The store of shared \<open>isEnabled\<close> objects\<close>

text \<open>
  Each \<open>IsEnabled\<close> object that \<open>getIsEnabled\<close> creates is shared by reference:
  \<open>initialiseLists\<close> wraps it in \<open>{ graphql: { isEnabled } }\<close>, every later copy of
  an intermediate list (\<open>...intermediateList\<close>, \<open>...blah\<close>, \<open>...list\<close>) copies the
  reference, and the closures of \<open>getListGraphqlTypes\<close> hold it too. The cascading
  disablement then assigns to \<open>list.graphql.isEnabled.create\<close>. The objects therefore
  live in a store; the address of an object is the list key it was created for, and
  whatever holds the object in the source holds its address here.
\<close>

type_synonym ref = string

type_synonym heap = "ref \<Rightarrow> isEnabled option"

text \<open>Reading through a reference. A dangling reference does not exist in the source.\<close>

definition deref :: "heap \<Rightarrow> ref \<Rightarrow> error + isEnabled" where
  "deref h r = (case h r of None \<Rightarrow> Inl TypeError | Some e \<Rightarrow> Inr e)"

text \<open>Assignment to a property of the referenced object.\<close>

definition assign :: "ref \<Rightarrow> (isEnabled \<Rightarrow> isEnabled) \<Rightarrow> heap \<Rightarrow> heap" where
  "assign r f h = (case h r of None \<Rightarrow> h | Some e \<Rightarrow> h(r \<mapsto> f e))"

section \<open>The Field Initializer\<close>

text \<open>\<open>'la\<close> and \<open>'fa\<close> are the resolved access control of a list and of a field.\<close>

record 'fa initialisedField =
  dbField_i :: "dbField option"
  access_i :: 'fa
  isEnabled_i :: fieldIsEnabled
  input_i :: fieldInput
  output_i :: "outputField option"
  extraOutputFields_i :: "(string \<times> outputField) list"

record ('la, 'fa) initialisedList =
  fields_i :: "(string \<times> 'fa initialisedField) list"
  resolvedDbFields :: "(string \<times> dbField) list option"
  isEnabledRef :: ref
  access_i_l :: 'la
  listKey_i :: string
  isSingleton_i :: bool

text \<open>
  The functions this file imports from the rest of the repository and calls during
  resolution; each may throw. They are parameters of the model.
\<close>

record ('a, 'la, 'fa) externals =
  parseListAccessControl :: "'a \<Rightarrow> error + 'la"
  parseFieldAccessControl :: "'a \<Rightarrow> error + 'fa"
  resolveRelationships ::
    "(string \<times> ('la, 'fa) initialisedList) list \<Rightarrow> error + (string \<times> (string \<times> dbField) list) list"
  assertFieldsValid :: "string \<Rightarrow> (string \<times> 'fa initialisedField) list \<Rightarrow> error + unit"

text \<open>A loop whose body may throw: the results in order, or the first error.\<close>

fun traverse :: "('x \<Rightarrow> error + 'y) \<Rightarrow> 'x list \<Rightarrow> error + 'y list" where
  "traverse f [] = Inr []"
| "traverse f (x # xs) =
     andThen (f x) (\<lambda>y. andThen (traverse f xs) (\<lambda>ys. Inr (y # ys)))"

text \<open>\<open>omit !== true && !omit?.includes(op)\<close>\<close>

definition notOmitted :: "jsval \<Rightarrow> string \<Rightarrow> error + bool" where
  "notOmitted omit op =
     (if omit = JBool True then Inr False
      else if omit = JUndefined \<or> omit = JNull then Inr True
      else andThen (js_includes omit op) (\<lambda>b. Inr (\<not> b)))"

text \<open>
  \<open>read && (v ?? intermediateList.graphql.isEnabled.sel)\<close>: \<open>false\<close> when \<open>read\<close> is
  false; the list default is read only when \<open>v\<close> is nullish.
\<close>

definition gatedByRead ::
  "bool \<Rightarrow> jsval \<Rightarrow> heap \<Rightarrow> ref \<Rightarrow> (isEnabled \<Rightarrow> jsval) \<Rightarrow> error + jsval" where
  "gatedByRead read v h r sel =
     (if \<not> read then Inr (JBool False)
      else if v = JUndefined \<or> v = JNull then andThen (deref h r) (\<lambda>e. Inr (sel e))
      else Inr v)"

text \<open>The body of the inner loop of \<open>getListsWithInitialisedFields\<close>, for one field.\<close>

definition initialiseField ::
  "('a, 'la, 'fa) externals \<Rightarrow> string \<Rightarrow> heap \<Rightarrow> ref \<Rightarrow> string \<Rightarrow> string \<Rightarrow> 'a fieldDecl
     \<Rightarrow> error + 'fa initialisedField" where
  "initialiseField ext provider h intermediateList listKey fieldKey fieldFunc =
     (case fieldFunc of
        NotFunc v \<Rightarrow> Inl (NotAFunction listKey fieldKey)
      | FieldFunc fn \<Rightarrow>
          (let f = fn \<lparr>fieldKey_a = fieldKey, listKey_a = listKey, provider_a = provider\<rparr> in
           andThen (throwIfNotAFilter (isFilterable f) listKey ''isFilterable'') (\<lambda>_.
           andThen (throwIfNotAFilter (isOrderable f) listKey ''isOrderable'') (\<lambda>_.
           andThen (notOmitted (omit_f f) ''read'') (\<lambda>read.
           andThen (notOmitted (omit_f f) ''update'') (\<lambda>update.
           andThen (notOmitted (omit_f f) ''create'') (\<lambda>create.
           andThen (gatedByRead read (isFilterable f) h intermediateList filter_l) (\<lambda>filter.
           andThen (gatedByRead read (isOrderable f) h intermediateList orderBy_l) (\<lambda>orderBy.
           andThen (parseFieldAccessControl ext (access_f f)) (\<lambda>access.
             Inr \<lparr>dbField_i = Some (dbField_f f),
                  access_i = access,
                  isEnabled_i = \<lparr>read_f = read, create_f = create, update_f = update,
                                  filter_f = filter, orderBy_f = orderBy\<rparr>,
                  input_i = input_f f,
                  output_i = output_f f,
                  extraOutputFields_i = extraOutputFields_f f\<rparr>))))))))))"

text \<open>
  The body of the outer loop. \<open>intermediateLists[listKey]\<close> always exists in the
  source (\<open>getIsEnabled\<close> makes an entry for every key of \<open>listsConfig\<close>); a failed
  lookup is reported as a \<open>TypeError\<close>.
\<close>

definition initialiseListEntry ::
  "('a, 'la, 'fa) externals \<Rightarrow> string \<Rightarrow> (string \<times> ref) list \<Rightarrow> heap \<Rightarrow> string \<times> 'a listConfig
     \<Rightarrow> error + string \<times> ('la, 'fa) initialisedList" where
  "initialiseListEntry ext provider intermediateLists h entry =
     (case entry of (listKey, list) \<Rightarrow>
       (case map_of intermediateLists listKey of
          None \<Rightarrow> Inl TypeError
        | Some intermediateList \<Rightarrow>
            andThen (traverse (\<lambda>(fieldKey, fieldFunc).
                        andThen (initialiseField ext provider h intermediateList listKey fieldKey fieldFunc)
                          (\<lambda>f. Inr (fieldKey, f)))
                      (fields_c list)) (\<lambda>resultFields.
            andThen (parseListAccessControl ext (access_c list)) (\<lambda>access.
              Inr (listKey,
                   \<lparr>fields_i = resultFields,
                    resolvedDbFields = None,
                    isEnabledRef = intermediateList,
                    access_i_l = access,
                    listKey_i = listKey,
                    isSingleton_i = (case isSingleton_c list of None \<Rightarrow> False | Some b \<Rightarrow> b)\<rparr>)))))"

definition getListsWithInitialisedFields ::
  "('a, 'la, 'fa) externals \<Rightarrow> 'a keystoneConfig \<Rightarrow> (string \<times> ref) list \<Rightarrow> heap
     \<Rightarrow> error + (string \<times> ('la, 'fa) initialisedList) list" where
  "getListsWithInitialisedFields ext config intermediateLists h =
     traverse (initialiseListEntry ext (provider_k config) intermediateLists h) (lists_k config)"

section \<open>The Type Graph Builder\<close>

text \<open>
  The registry the thunks read when they are evaluated: \<open>lists\<close> (the object
  \<open>listsRef\<close> that \<open>initialiseLists\<close> fills at its very end) and the store of the
  \<open>isEnabled\<close> objects as it is at that moment.
\<close>

record ('la, 'fa) registry =
  lists_r :: "(string \<times> ('la, 'fa) initialisedList) list"
  heap_r :: heap

text \<open>
  \<open>Object.fromEntries\<close>: a later entry with the same key replaces the value of the
  earlier one and keeps its place.
\<close>

definition fromEntries :: "(string \<times> 'v) list \<Rightarrow> (string \<times> 'v) list" where
  "fromEntries es = fold (\<lambda>(k, v). AList.update k v) es []"

text \<open>
  The call \<open>outputTypeField(outputField, field.dbField, cacheHint, field.access.read,
  listKey, fieldPath, lists)\<close> builds the resolver of an output field; it is kept as the
  arguments it was called with.
\<close>

record 'fa outputTypeField =
  of_outputField :: outputField
  of_dbField :: dbField
  of_access :: 'fa
  of_listKey :: string
  of_fieldPath :: string

text \<open>
  \<open>field.dbField.kind === 'relation' &&
  !intermediateLists[field.dbField.list].graphql.isEnabled.query\<close>, for a
  \<open>dbField\<close> that is not \<open>undefined\<close>.
\<close>

definition targetNotQueryable :: "(string \<times> ref) list \<Rightarrow> heap \<Rightarrow> dbField \<Rightarrow> error + bool" where
  "targetNotQueryable intermediateLists h db =
     (case db of
        NonRelation k \<Rightarrow> Inr False
      | Relation l f \<Rightarrow>
          (case map_of intermediateLists l of
             None \<Rightarrow> Inl TypeError
           | Some r \<Rightarrow> andThen (deref h r) (\<lambda>e. Inr (\<not> query_l e))))"

text \<open>The function given to \<open>flatMap\<close> in the thunk of the output type.\<close>

definition outputEntries ::
  "string \<Rightarrow> (string \<times> ref) list \<Rightarrow> heap \<Rightarrow> string \<times> 'fa initialisedField
     \<Rightarrow> error + (string \<times> 'fa outputTypeField) list" where
  "outputEntries listKey intermediateLists h entry =
     (case entry of (fieldPath, field) \<Rightarrow>
       (case output_i field of
          None \<Rightarrow> Inr []
        | Some out \<Rightarrow>
            if \<not> read_f (isEnabled_i field) then Inr []
            else
              (case dbField_i field of
                 None \<Rightarrow> Inl TypeError
               | Some db \<Rightarrow>
                   andThen (targetNotQueryable intermediateLists h db) (\<lambda>hidden.
                     if hidden then Inr []
                     else Inr (map (\<lambda>(outputTypeFieldName, outputField).
                                 (outputTypeFieldName,
                                  \<lparr>of_outputField = outputField,
                                   of_dbField = db,
                                   of_access = access_i field,
                                   of_listKey = listKey,
                                   of_fieldPath = fieldPath\<rparr>))
                               ((fieldPath, out) # extraOutputFields_i field))))))"

text \<open>
  The thunk \<open>fields\<close> of the output type of the list \<open>listKey\<close>. It reads
  \<open>lists[listKey]\<close> when it is evaluated.
\<close>

definition output_fields ::
  "string \<Rightarrow> (string \<times> ref) list \<Rightarrow> ('la, 'fa) registry
     \<Rightarrow> error + (string \<times> 'fa outputTypeField) list" where
  "output_fields listKey intermediateLists reg =
     (case map_of (lists_r reg) listKey of
        None \<Rightarrow> Inl TypeError
      | Some l \<Rightarrow>
          andThen (traverse (outputEntries listKey intermediateLists (heap_r reg)) (fields_i l))
            (\<lambda>ess. Inr (fromEntries (concat ess))))"

text \<open>The function given to \<open>flatMap\<close> in the thunk of the unique-filter input.\<close>

definition uniqueWhereEntries :: "string \<times> 'fa initialisedField \<Rightarrow> (string \<times> arg) list" where
  "uniqueWhereEntries entry =
     (case entry of (key, field) \<Rightarrow>
       (case argOf (uniqueWhere_in (input_i field)) of
          None \<Rightarrow> []
        | Some a \<Rightarrow>
            if \<not> read_f (isEnabled_i field) \<or> \<not> truthy (filter_f (isEnabled_i field)) then []
            else [(key, a)]))"

definition uniqueWhere_fields :: "string \<Rightarrow> ('la, 'fa) registry \<Rightarrow> error + (string \<times> arg) list" where
  "uniqueWhere_fields listKey reg =
     (case map_of (lists_r reg) listKey of
        None \<Rightarrow> Inl TypeError
      | Some l \<Rightarrow>
          Inr (AList.update ''id'' (mkArg GID)
                 (fromEntries (concat (map uniqueWhereEntries (fields_i l))))))"

record findManyArgs =
  where_a :: arg
  orderBy_a :: arg
  take_a :: arg
  skip_a :: arg

definition mkFindManyArgs :: "string \<Rightarrow> 'a listConfig \<Rightarrow> findManyArgs" where
  "mkFindManyArgs listKey listConfig =
     \<lparr>where_a = mkArgDefault (GNonNull (WhereInput listKey))
                  (if isSingleton_c listConfig = Some True
                   then VObject [(''id'', VObject [(''equals'', VString ''1'')])]
                   else VObject []),
      orderBy_a = mkArgDefault (GNonNull (GList (GNonNull (OrderByInput listKey)))) (VList []),
      take_a = mkArg GInt,
      skip_a = mkArgDefault (GNonNull GInt) (VInt 0)\<rparr>"

text \<open>
  The thunks of the four relation inputs. Each closes over the object \<open>isEnabled\<close> of
  its list and reads \<open>isEnabled.create\<close> when it is evaluated.
  \<open>...(isEnabled.create && { create: ... })\<close> adds nothing when \<open>create\<close> is false.
\<close>

definition relateToManyForCreate_fields :: "string \<Rightarrow> ref \<Rightarrow> heap \<Rightarrow> error + (string \<times> arg) list" where
  "relateToManyForCreate_fields listKey r h =
     andThen (deref h r) (\<lambda>isEn.
       Inr ((if create_l isEn then [(''create'', mkArg (GList (GNonNull (CreateInput listKey))))] else [])
            @ [(''connect'', mkArg (GList (GNonNull (WhereUniqueInput listKey))))]))"

definition relateToManyForUpdate_fields :: "string \<Rightarrow> ref \<Rightarrow> heap \<Rightarrow> error + (string \<times> arg) list" where
  "relateToManyForUpdate_fields listKey r h =
     andThen (deref h r) (\<lambda>isEn.
       Inr ([(''disconnect'', mkArg (GList (GNonNull (WhereUniqueInput listKey)))),
             (''set'', mkArg (GList (GNonNull (WhereUniqueInput listKey))))]
            @ (if create_l isEn then [(''create'', mkArg (GList (GNonNull (CreateInput listKey))))] else [])
            @ [(''connect'', mkArg (GList (GNonNull (WhereUniqueInput listKey))))]))"

definition relateToOneForCreate_fields :: "string \<Rightarrow> ref \<Rightarrow> heap \<Rightarrow> error + (string \<times> arg) list" where
  "relateToOneForCreate_fields listKey r h =
     andThen (deref h r) (\<lambda>isEn.
       Inr ((if create_l isEn then [(''create'', mkArg (CreateInput listKey))] else [])
            @ [(''connect'', mkArg (WhereUniqueInput listKey))]))"

definition relateToOneForUpdate_fields :: "string \<Rightarrow> ref \<Rightarrow> heap \<Rightarrow> error + (string \<times> arg) list" where
  "relateToOneForUpdate_fields listKey r h =
     andThen (deref h r) (\<lambda>isEn.
       Inr ((if create_l isEn then [(''create'', mkArg (CreateInput listKey))] else [])
            @ [(''connect'', mkArg (WhereUniqueInput listKey)),
               (''disconnect'', mkArg GBoolean)]))"

text \<open>
  The types of one list, with the thunks as functions of the registry. The relation
  inputs are \<open>undefined\<close> (\<open>None\<close>) unless \<open>isEnabled.type\<close> held when
  \<open>getListGraphqlTypes\<close> ran.
\<close>

record ('la, 'fa) graphQLTypesForList =
  output_t :: "('la, 'fa) registry \<Rightarrow> error + (string \<times> 'fa outputTypeField) list"
  uniqueWhere_t :: "('la, 'fa) registry \<Rightarrow> error + (string \<times> arg) list"
  findManyArgs_t :: findManyArgs
  relateToManyForCreate :: "(('la, 'fa) registry \<Rightarrow> error + (string \<times> arg) list) option"
  relateToManyForUpdate :: "(('la, 'fa) registry \<Rightarrow> error + (string \<times> arg) list) option"
  relateToOneForCreate :: "(('la, 'fa) registry \<Rightarrow> error + (string \<times> arg) list) option"
  relateToOneForUpdate :: "(('la, 'fa) registry \<Rightarrow> error + (string \<times> arg) list) option"

text \<open>
  The body of the loop of \<open>getListGraphqlTypes\<close>. \<open>h\<close> is the store when the
  function runs: only \<open>isEnabled.type\<close> is read from it at once.
\<close>

definition getListGraphqlTypes_entry ::
  "(string \<times> ref) list \<Rightarrow> heap \<Rightarrow> string \<times> 'a listConfig
     \<Rightarrow> error + string \<times> ('la, 'fa) graphQLTypesForList" where
  "getListGraphqlTypes_entry intermediateLists h entry =
     (case entry of (listKey, listConfig) \<Rightarrow>
       (case map_of intermediateLists listKey of
          None \<Rightarrow> Inl TypeError
        | Some r \<Rightarrow>
            andThen (deref h r) (\<lambda>isEn.
              Inr (listKey,
                   \<lparr>output_t = output_fields listKey intermediateLists,
                    uniqueWhere_t = uniqueWhere_fields listKey,
                    findManyArgs_t = mkFindManyArgs listKey listConfig,
                    relateToManyForCreate =
                      (if type_l isEn then Some (\<lambda>reg. relateToManyForCreate_fields listKey r (heap_r reg)) else None),
                    relateToManyForUpdate =
                      (if type_l isEn then Some (\<lambda>reg. relateToManyForUpdate_fields listKey r (heap_r reg)) else None),
                    relateToOneForCreate =
                      (if type_l isEn then Some (\<lambda>reg. relateToOneForCreate_fields listKey r (heap_r reg)) else None),
                    relateToOneForUpdate =
                      (if type_l isEn then Some (\<lambda>reg. relateToOneForUpdate_fields listKey r (heap_r reg)) else None)\<rparr>))))"

definition getListGraphqlTypes ::
  "'a listsConfig \<Rightarrow> (string \<times> ref) list \<Rightarrow> heap
     \<Rightarrow> error + (string \<times> ('la, 'fa) graphQLTypesForList) list" where
  "getListGraphqlTypes listsConfig intermediateLists h =
     traverse (getListGraphqlTypes_entry intermediateLists h) listsConfig"

section \<open>The Orchestrator\<close>

text \<open>
  \<open>{ ...blah, resolvedDbFields: resolvedDBFieldsForLists[listKey] }\<close>, for every list.
\<close>

definition attachResolvedDbFields ::
  "(string \<times> (string \<times> dbField) list) list \<Rightarrow> (string \<times> ('la, 'fa) initialisedList) list
     \<Rightarrow> (string \<times> ('la, 'fa) initialisedList) list" where
  "attachResolvedDbFields resolvedDBFieldsForLists ls =
     map (\<lambda>(listKey, blah). (listKey, blah\<lparr>resolvedDbFields := map_of resolvedDBFieldsForLists listKey\<rparr>)) ls"

text \<open>
  \<open>fields[fieldKey] = { ...field, dbField: list.resolvedDbFields[fieldKey] }\<close>, for
  every field of a list. Reading a property of an \<open>undefined\<close> \<open>resolvedDbFields\<close>
  raises a \<open>TypeError\<close>, which needs a field to happen.
\<close>

definition linkDbFields ::
  "string \<times> ('la, 'fa) initialisedList \<Rightarrow> error + string \<times> ('la, 'fa) initialisedList" where
  "linkDbFields entry =
     (case entry of (listKey, list) \<Rightarrow>
       (case resolvedDbFields list of
          None \<Rightarrow> if fields_i list = [] then Inr (listKey, list) else Inl TypeError
        | Some rdf \<Rightarrow>
            Inr (listKey,
                 list\<lparr>fields_i := map (\<lambda>(fieldKey, field). (fieldKey, field\<lparr>dbField_i := map_of rdf fieldKey\<rparr>))
                                      (fields_i list)\<rparr>)))"

text \<open>The two flags the cascading disablement computes for a list.\<close>

definition hasAnEnabledCreateField :: "('la, 'fa) initialisedList \<Rightarrow> bool" where
  "hasAnEnabledCreateField list =
     list_ex (\<lambda>(fieldKey, field). argOf (create_in (input_i field)) \<noteq> None \<and> create_f (isEnabled_i field))
       (fields_i list)"

definition hasAnEnabledUpdateField :: "('la, 'fa) initialisedList \<Rightarrow> bool" where
  "hasAnEnabledUpdateField list =
     list_ex (\<lambda>(fieldKey, field). update_in (input_i field) \<noteq> None \<and> update_f (isEnabled_i field))
       (fields_i list)"

text \<open>The body of the loop of the cascading disablement, for one list.\<close>

definition cascadeList :: "('la, 'fa) initialisedList \<Rightarrow> heap \<Rightarrow> heap" where
  "cascadeList list h =
     (let h1 = (if \<not> hasAnEnabledCreateField list
                then assign (isEnabledRef list) (\<lambda>e. e\<lparr>create_l := False\<rparr>) h else h)
      in if \<not> hasAnEnabledUpdateField list
         then assign (isEnabledRef list) (\<lambda>e. e\<lparr>update_l := False\<rparr>) h1 else h1)"

text \<open>
  The cascading disablement: the loop over \<open>Object.values(intermediateLists)\<close>. It
  assigns to the shared \<open>isEnabled\<close> objects and to nothing else.
\<close>

definition cascadingDisablement :: "('la, 'fa) registry \<Rightarrow> ('la, 'fa) registry" where
  "cascadingDisablement reg =
     reg\<lparr>heap_r := fold (\<lambda>(listKey, list). cascadeList list) (lists_r reg) (heap_r reg)\<rparr>"

text \<open>
  What \<open>initialiseLists\<close> leaves behind: the filled \<open>listsRef\<close> with the store, and the
  types of the lists (in the source, \<open>listsRef[listKey].types\<close>).
\<close>

record ('la, 'fa) resolution =
  registry_of :: "('la, 'fa) registry"
  types_of :: "(string \<times> ('la, 'fa) graphQLTypesForList) list"

definition initialiseLists ::
  "('a, 'la, 'fa) externals \<Rightarrow> 'a keystoneConfig \<Rightarrow> error + ('la, 'fa) resolution" where
  "initialiseLists ext config =
     andThen (getIsEnabled (lists_k config)) (\<lambda>isEnabled.
       let h0 = map_of isEnabled;
           intermediateLists = map (\<lambda>(key, e). (key, key)) isEnabled
       in
       andThen (getListGraphqlTypes (lists_k config) intermediateLists h0) (\<lambda>listGraphqlTypes.
       andThen (getListsWithInitialisedFields ext config intermediateLists h0) (\<lambda>ls1.
       andThen (resolveRelationships ext ls1) (\<lambda>resolvedDBFieldsForLists.
       andThen (traverse linkDbFields (attachResolvedDbFields resolvedDBFieldsForLists ls1)) (\<lambda>ls3.
       let reg = cascadingDisablement \<lparr>lists_r = ls3, heap_r = h0\<rparr> in
       andThen (traverse (\<lambda>(listKey, list). assertFieldsValid ext listKey (fields_i list)) (lists_r reg)) (\<lambda>_.
         Inr \<lparr>registry_of = reg, types_of = listGraphqlTypes\<rparr>))))))"

text \<open>
  The list flags that the cascading disablement never assigns to.
\<close>

definition otherFlags :: "isEnabled \<Rightarrow> bool \<times> bool \<times> bool \<times> jsval \<times> jsval" where
  "otherFlags e = (type_l e, query_l e, delete_l e, filter_l e, orderBy_l e)"

section \<open>Example configurations\<close>

text \<open>
  Two field constructors in the style of the field types of the repository: a scalar
  field (with \<open>graphql.omit\<close>, \<open>isFilterable\<close> and whether it declares a unique-filter
  argument) and a relationship field to a target list.
\<close>

definition scalarField :: "jsval \<Rightarrow> jsval \<Rightarrow> bool \<Rightarrow> fieldArgs \<Rightarrow> unit nextFieldType" where
  "scalarField omit filterable unique args =
     \<lparr>isFilterable = filterable, isOrderable = JUndefined, omit_f = omit,
      dbField_f = NonRelation Scalar, access_f = (),
      input_f = \<lparr>where_in = Some (Some (mkArg GInt)),
                 uniqueWhere_in = (if unique then Some (Some (mkArg GID)) else None),
                 create_in = Some (Some (mkArg GInt)),
                 update_in = Some (Some (mkArg GInt)),
                 orderBy_in = Some (Some (mkArg GInt))\<rparr>,
      output_f = Some (OutputField GInt),
      extraOutputFields_f = []\<rparr>"

definition relationField :: "string \<Rightarrow> fieldArgs \<Rightarrow> unit nextFieldType" where
  "relationField target args =
     \<lparr>isFilterable = JUndefined, isOrderable = JUndefined, omit_f = JUndefined,
      dbField_f = Relation target None, access_f = (),
      input_f = \<lparr>where_in = Some (Some (mkArg (WhereInput target))),
                 uniqueWhere_in = None,
                 create_in = Some (Some (mkArg (CreateInput target))),
                 update_in = Some (Some (mkArg (UpdateInput target))),
                 orderBy_in = None\<rparr>,
      output_f = Some (OutputField (OutputType target)),
      extraOutputFields_f = []\<rparr>"

text \<open>
  Collaborators that accept everything: access control is parsed to itself, every field
  keeps the storage field it declared, and the field assertions pass.
\<close>

definition keepDbFields ::
  "(string \<times> (unit, unit) initialisedList) list \<Rightarrow> error + (string \<times> (string \<times> dbField) list) list" where
  "keepDbFields ls =
     Inr (map (\<lambda>(listKey, list).
            (listKey, concat (map (\<lambda>(fieldKey, field).
                        (case dbField_i field of None \<Rightarrow> [] | Some db \<Rightarrow> [(fieldKey, db)]))
                      (fields_i list)))) ls)"

definition exampleExternals :: "(unit, unit, unit) externals" where
  "exampleExternals =
     \<lparr>parseListAccessControl = Inr, parseFieldAccessControl = Inr,
      resolveRelationships = keepDbFields,
      assertFieldsValid = (\<lambda>listKey fs. Inr ())\<rparr>"

definition listWith ::
  "jsval \<Rightarrow> jsval \<Rightarrow> bool option \<Rightarrow> (string \<times> unit fieldDecl) list \<Rightarrow> unit listConfig" where
  "listWith omit filterable singleton fs =
     \<lparr>fields_c = fs, omit_c = omit, defaultIsFilterable = filterable,
      defaultIsOrderable = JUndefined, isSingleton_c = singleton, access_c = ()\<rparr>"

definition configOf :: "unit listsConfig \<Rightarrow> unit keystoneConfig" where
  "configOf ls = \<lparr>lists_k = ls, provider_k = ''sqlite''\<rparr>"

text \<open>
  A blog: posts with a unique slug, a hidden field and an author; people, a singleton list that omits
  \<open>query\<close> and whose only field omits \<open>create\<close> and \<open>update\<close>; and an audit list that
  is omitted altogether.
\<close>

definition postList :: "unit listConfig" where
  "postList =
     listWith JUndefined JUndefined None
       [(''id'', FieldFunc (scalarField JUndefined JUndefined True)),
        (''slug'', FieldFunc (scalarField JUndefined JUndefined True)),
        (''title'', FieldFunc (scalarField JUndefined (JBool True) False)),
        (''author'', FieldFunc (relationField ''Person'')),
        (''secret'', FieldFunc (scalarField (JArr [JStr ''read'']) (JBool True) False))]"

definition personList :: "unit listConfig" where
  "personList =
     listWith (JArr [JStr ''query'']) JUndefined (Some True)
       [(''name'', FieldFunc (scalarField (JArr [JStr ''create'', JStr ''update'']) JUndefined False))]"

definition auditList :: "unit listConfig" where
  "auditList = listWith (JBool True) JUndefined None []"

definition blogConfig :: "unit keystoneConfig" where
  "blogConfig = configOf [(''Post'', postList), (''Person'', personList), (''Audit'', auditList)]"

text \<open>What the blog resolves to: the result, and the three lists written out.\<close>

definition blogResolution :: "(unit, unit) resolution" where
  "blogResolution = projr (initialiseLists exampleExternals blogConfig)"

definition blogPost :: "(unit, unit) initialisedList" where
  "blogPost =
     \<lparr>fields_i =
       [(''id'',
         \<lparr>dbField_i = Some (NonRelation Scalar), access_i = (),
          isEnabled_i = \<lparr>read_f = True, create_f = True, update_f = True,
                          filter_f = JBool True, orderBy_f = JBool True\<rparr>,
          input_i = \<lparr>where_in = Some (Some \<lparr>argType = GInt, defaultValue = None\<rparr>),
                     uniqueWhere_in = Some (Some \<lparr>argType = GID, defaultValue = None\<rparr>),
                     create_in = Some (Some \<lparr>argType = GInt, defaultValue = None\<rparr>),
                     update_in = Some (Some \<lparr>argType = GInt, defaultValue = None\<rparr>),
                     orderBy_in = Some (Some \<lparr>argType = GInt, defaultValue = None\<rparr>)\<rparr>,
          output_i = Some (OutputField GInt), extraOutputFields_i = []\<rparr>),
        (''slug'',
         \<lparr>dbField_i = Some (NonRelation Scalar), access_i = (),
          isEnabled_i = \<lparr>read_f = True, create_f = True, update_f = True,
                          filter_f = JBool True, orderBy_f = JBool True\<rparr>,
          input_i = \<lparr>where_in = Some (Some \<lparr>argType = GInt, defaultValue = None\<rparr>),
                     uniqueWhere_in = Some (Some \<lparr>argType = GID, defaultValue = None\<rparr>),
                     create_in = Some (Some \<lparr>argType = GInt, defaultValue = None\<rparr>),
                     update_in = Some (Some \<lparr>argType = GInt, defaultValue = None\<rparr>),
                     orderBy_in = Some (Some \<lparr>argType = GInt, defaultValue = None\<rparr>)\<rparr>,
          output_i = Some (OutputField GInt), extraOutputFields_i = []\<rparr>),
        (''title'',
         \<lparr>dbField_i = Some (NonRelation Scalar), access_i = (),
          isEnabled_i = \<lparr>read_f = True, create_f = True, update_f = True,
                          filter_f = JBool True, orderBy_f = JBool True\<rparr>,
          input_i = \<lparr>where_in = Some (Some \<lparr>argType = GInt, defaultValue = None\<rparr>),
                     uniqueWhere_in = None,
                     create_in = Some (Some \<lparr>argType = GInt, defaultValue = None\<rparr>),
                     update_in = Some (Some \<lparr>argType = GInt, defaultValue = None\<rparr>),
                     orderBy_in = Some (Some \<lparr>argType = GInt, defaultValue = None\<rparr>)\<rparr>,
          output_i = Some (OutputField GInt), extraOutputFields_i = []\<rparr>),
        (''author'',
         \<lparr>dbField_i = Some (Relation ''Person'' None), access_i = (),
          isEnabled_i = \<lparr>read_f = True, create_f = True, update_f = True,
                          filter_f = JBool True, orderBy_f = JBool True\<rparr>,
          input_i = \<lparr>where_in = Some (Some \<lparr>argType = (WhereInput ''Person''), defaultValue = None\<rparr>),
                     uniqueWhere_in = None,
                     create_in = Some (Some \<lparr>argType = (CreateInput ''Person''), defaultValue = None\<rparr>),
                     update_in = Some (Some \<lparr>argType = (UpdateInput ''Person''), defaultValue = None\<rparr>),
                     orderBy_in = None\<rparr>,
          output_i = Some (OutputField (OutputType ''Person'')), extraOutputFields_i = []\<rparr>),
        (''secret'',
         \<lparr>dbField_i = Some (NonRelation Scalar), access_i = (),
          isEnabled_i = \<lparr>read_f = False, create_f = True, update_f = True,
                          filter_f = JBool False, orderBy_f = JBool False\<rparr>,
          input_i = \<lparr>where_in = Some (Some \<lparr>argType = GInt, defaultValue = None\<rparr>),
                     uniqueWhere_in = None,
                     create_in = Some (Some \<lparr>argType = GInt, defaultValue = None\<rparr>),
                     update_in = Some (Some \<lparr>argType = GInt, defaultValue = None\<rparr>),
                     orderBy_in = Some (Some \<lparr>argType = GInt, defaultValue = None\<rparr>)\<rparr>,
          output_i = Some (OutputField GInt), extraOutputFields_i = []\<rparr>)],
      resolvedDbFields =
        Some [(''id'', NonRelation Scalar), (''slug'', NonRelation Scalar),
              (''title'', NonRelation Scalar),
              (''author'', Relation ''Person'' None), (''secret'', NonRelation Scalar)],
      isEnabledRef = ''Post'', access_i_l = (), listKey_i = ''Post'', isSingleton_i = False\<rparr>"

definition blogPerson :: "(unit, unit) initialisedList" where
  "blogPerson =
     \<lparr>fields_i =
       [(''name'',
         \<lparr>dbField_i = Some (NonRelation Scalar), access_i = (),
          isEnabled_i = \<lparr>read_f = True, create_f = False, update_f = False,
                          filter_f = JBool True, orderBy_f = JBool True\<rparr>,
          input_i = \<lparr>where_in = Some (Some \<lparr>argType = GInt, defaultValue = None\<rparr>),
                     uniqueWhere_in = None,
                     create_in = Some (Some \<lparr>argType = GInt, defaultValue = None\<rparr>),
                     update_in = Some (Some \<lparr>argType = GInt, defaultValue = None\<rparr>),
                     orderBy_in = Some (Some \<lparr>argType = GInt, defaultValue = None\<rparr>)\<rparr>,
          output_i = Some (OutputField GInt), extraOutputFields_i = []\<rparr>)],
      resolvedDbFields = Some [(''name'', NonRelation Scalar)],
      isEnabledRef = ''Person'', access_i_l = (), listKey_i = ''Person'', isSingleton_i = True\<rparr>"

text \<open>
  A list in which no field declares a unique-filter argument: its only field, \<open>id\<close>,
  has none.
\<close>

definition tagList :: "unit listConfig" where
  "tagList =
     listWith JUndefined JUndefined None
       [(''id'', FieldFunc (scalarField JUndefined JUndefined False))]"

definition tagConfig :: "unit keystoneConfig" where
  "tagConfig = configOf [(''Tag'', tagList)]"

definition tagResolution :: "(unit, unit) resolution" where
  "tagResolution = projr (initialiseLists exampleExternals tagConfig)"

text \<open>The types \<open>getListGraphqlTypes\<close> makes for a list of the blog.\<close>

definition blogIntermediate :: "(string \<times> ref) list" where
  "blogIntermediate = [(''Post'', ''Post''), (''Person'', ''Person''), (''Audit'', ''Audit'')]"

definition blogTypes :: "string \<Rightarrow> unit listConfig \<Rightarrow> bool \<Rightarrow> (unit, unit) graphQLTypesForList" where
  "blogTypes listKey listConfig withType =
     \<lparr>output_t = output_fields listKey blogIntermediate,
      uniqueWhere_t = uniqueWhere_fields listKey,
      findManyArgs_t = mkFindManyArgs listKey listConfig,
      relateToManyForCreate =
        (if withType then Some (\<lambda>reg. relateToManyForCreate_fields listKey listKey (heap_r reg)) else None),
      relateToManyForUpdate =
        (if withType then Some (\<lambda>reg. relateToManyForUpdate_fields listKey listKey (heap_r reg)) else None),
      relateToOneForCreate =
        (if withType then Some (\<lambda>reg. relateToOneForCreate_fields listKey listKey (heap_r reg)) else None),
      relateToOneForUpdate =
        (if withType then Some (\<lambda>reg. relateToOneForUpdate_fields listKey listKey (heap_r reg)) else None)\<rparr>"

definition blogAudit :: "(unit, unit) initialisedList" where
  "blogAudit =
     \<lparr>fields_i = [], resolvedDbFields = Some [], isEnabledRef = ''Audit'',
      access_i_l = (), listKey_i = ''Audit'', isSingleton_i = False\<rparr>"

section \<open>Sequencing and loops\<close>

lemma andThen_Inl [simp]: "andThen (Inl e) f = Inl e"
  by (simp add: andThen_def)

lemma andThen_Inr [simp]: "andThen (Inr x) f = f x"
  by (simp add: andThen_def)

lemma andThen_eq_Inr: "andThen m f = Inr y \<longleftrightarrow> (\<exists>x. m = Inr x \<and> f x = Inr y)"
  by (cases m) simp_all

lemma traverse_Inr_all2:
  "traverse f xs = Inr ys \<Longrightarrow> list_all2 (\<lambda>x y. f x = Inr y) xs ys"
  by (induction xs arbitrary: ys) (auto simp: andThen_eq_Inr)

lemma getIsEnabled_Inl:
  "(k, c) \<in> set cfg \<Longrightarrow> getIsEnabled_entry k c = Inl e \<Longrightarrow> \<exists>e'. getIsEnabled cfg = Inl e'"
proof (induction cfg)
  case Nil
  then show ?case by simp
next
  case (Cons a cfg)
  obtain k0 c0 where a: "a = (k0, c0)" by (cases a)
  show ?case
  proof (cases "getIsEnabled_entry k0 c0")
    case (Inl e0)
    with a show ?thesis by simp
  next
    case (Inr y)
    with Cons a have "(k, c) \<in> set cfg" by auto
    with Cons obtain e' where "getIsEnabled cfg = Inl e'" by auto
    with Inr a show ?thesis by simp
  qed
qed


subsection \<open>The enablement of one list\<close>

lemma initialiseLists_getIsEnabled_Inl:
  "getIsEnabled (lists_k config) = Inl e \<Longrightarrow> initialiseLists ext config = Inl e"
  by (simp add: initialiseLists_def)

lemma entry_omit_true:
  "omit_c c = JBool True \<Longrightarrow>
   getIsEnabled_entry k c =
     Inr \<lparr>type_l = False, query_l = False, create_l = False, update_l = False,
          delete_l = False, filter_l = JBool False, orderBy_l = JBool False\<rparr>"
  by (simp add: getIsEnabled_entry_def checkListDefaults_def)

lemma checkListDefaults_bad:
  assumes "\<not> truthy (omit_c c)"
    and "typeof (defaultIsFilterable c) \<notin> set [''boolean'', ''undefined'', ''function'']
         \<or> typeof (defaultIsOrderable c) \<notin> set [''boolean'', ''undefined'', ''function'']"
  shows "\<exists>f v. checkListDefaults k c = Inl (NotAFilter k f v)"
  using assms by (auto simp: checkListDefaults_def throwIfNotAFilter_def)

lemma entry_bad_default:
  assumes "\<not> truthy (omit_c c)"
    and "typeof (defaultIsFilterable c) \<notin> set [''boolean'', ''undefined'', ''function'']
         \<or> typeof (defaultIsOrderable c) \<notin> set [''boolean'', ''undefined'', ''function'']"
  shows "\<exists>f v. getIsEnabled_entry k c = Inl (NotAFilter k f v)"
proof -
  from checkListDefaults_bad [OF assms]
  obtain f v where "checkListDefaults k c = Inl (NotAFilter k f v)" by blast
  then have "getIsEnabled_entry k c = Inl (NotAFilter k f v)"
    by (simp add: getIsEnabled_entry_def)
  then show ?thesis by blast
qed

lemma entry_no_includes:
  assumes "omit_c c \<in> {JNull, JBool False, JNaN} \<union> range JNum \<union> range JFun"
  shows "\<exists>e. getIsEnabled_entry k c = Inl e"
proof (cases "checkListDefaults k c")
  case (Inl e)
  then show ?thesis by (simp add: getIsEnabled_entry_def)
next
  case (Inr u)
  with assms show ?thesis
    by (auto simp: getIsEnabled_entry_def)
qed

lemma entry_array:
  "omit_c c = JArr xs \<Longrightarrow>
   getIsEnabled_entry k c =
     Inr \<lparr>type_l = True, query_l = (JStr ''query'' \<notin> set xs), create_l = (JStr ''create'' \<notin> set xs),
          update_l = (JStr ''update'' \<notin> set xs), delete_l = (JStr ''delete'' \<notin> set xs),
          filter_l = nullish (defaultIsFilterable c) (JBool True),
          orderBy_l = nullish (defaultIsOrderable c) (JBool True)\<rparr>"
  by (simp add: getIsEnabled_entry_def checkListDefaults_def)

text \<open>The definitions to unfold when the model is run on a concrete configuration.\<close>

lemmas eval_defs =
  initialiseLists_def getListGraphqlTypes_def getListGraphqlTypes_entry_def
  getListsWithInitialisedFields_def initialiseListEntry_def initialiseField_def
  getIsEnabled_entry_def checkListDefaults_def throwIfNotAFilter_def
  notOmitted_def gatedByRead_def deref_def assign_def nullish_def
  attachResolvedDbFields_def linkDbFields_def cascadingDisablement_def cascadeList_def
  hasAnEnabledCreateField_def hasAnEnabledUpdateField_def
  exampleExternals_def keepDbFields_def scalarField_def relationField_def
  listWith_def configOf_def blogConfig_def postList_def personList_def auditList_def
  mkArg_def Let_def

section \<open>The shape of a resolution\<close>

lemma all2_setD2: "list_all2 P xs ys \<Longrightarrow> y \<in> set ys \<Longrightarrow> \<exists>x\<in>set xs. P x y"
  by (induction rule: list_all2_induct) auto

lemma all2_setD1: "list_all2 P xs ys \<Longrightarrow> x \<in> set xs \<Longrightarrow> \<exists>y\<in>set ys. P x y"
  by (induction rule: list_all2_induct) auto

lemma map_of_selfref:
  "map_of (map (\<lambda>(key, e). (key, key)) ie) k = Some r \<longleftrightarrow> r = k \<and> k \<in> fst ` set ie"
  by (induction ie) auto

lemma initialiseLists_Inr:
  assumes "initialiseLists ext config = Inr res"
  obtains ie gts ls1 rdb ls3 where
    "getIsEnabled (lists_k config) = Inr ie"
    "getListGraphqlTypes (lists_k config) (map (\<lambda>(key, e). (key, key)) ie) (map_of ie) = Inr gts"
    "getListsWithInitialisedFields ext config (map (\<lambda>(key, e). (key, key)) ie) (map_of ie) = Inr ls1"
    "resolveRelationships ext ls1 = Inr rdb"
    "traverse linkDbFields (attachResolvedDbFields rdb ls1) = Inr ls3"
    "registry_of res = cascadingDisablement \<lparr>lists_r = ls3, heap_r = map_of ie\<rparr>"
    "types_of res = gts"
  using assms unfolding initialiseLists_def Let_def
  by (auto simp: andThen_eq_Inr)

lemma initialiseListEntry_Inr:
  assumes "initialiseListEntry ext p im h (k, c) = Inr (k', l)"
  shows "k' = k \<and> map_of im k = Some (isEnabledRef l)
         \<and> list_all2 (\<lambda>(fk, fd) (fk', f). fk' = fk \<and> initialiseField ext p h (isEnabledRef l) k fk fd = Inr f)
              (fields_c c) (fields_i l)"
proof -
  from assms obtain r fs acc where r: "map_of im k = Some r"
    and fs: "traverse (\<lambda>(fieldKey, fieldFunc).
                andThen (initialiseField ext p h r k fieldKey fieldFunc) (\<lambda>f. Inr (fieldKey, f)))
              (fields_c c) = Inr fs"
    and l: "k' = k" "isEnabledRef l = r" "fields_i l = fs"
    by (auto simp: initialiseListEntry_def andThen_eq_Inr split: option.splits)
  from traverse_Inr_all2 [OF fs]
  have "list_all2 (\<lambda>(fk, fd) (fk', f). fk' = fk \<and> initialiseField ext p h r k fk fd = Inr f)
          (fields_c c) fs"
    by (rule list_all2_mono) (auto simp: andThen_eq_Inr)
  with r l show ?thesis by simp
qed

lemma linkDbFields_shape:
  assumes "linkDbFields (k, l) = Inr (k', l')"
  shows "k' = k \<and> isEnabledRef l' = isEnabledRef l
         \<and> (\<exists>g. fields_i l' = map (\<lambda>(fk, f). (fk, f\<lparr>dbField_i := g fk\<rparr>)) (fields_i l))"
proof (cases "resolvedDbFields l")
  case None
  with assms have "fields_i l = []" "k' = k" "l' = l"
    by (auto simp: linkDbFields_def split: if_splits)
  then show ?thesis by simp
next
  case (Some rdf)
  with assms have "k' = k"
    "l' = l\<lparr>fields_i := map (\<lambda>(fieldKey, field). (fieldKey, field\<lparr>dbField_i := map_of rdf fieldKey\<rparr>)) (fields_i l)\<rparr>"
    by (auto simp: linkDbFields_def)
  then show ?thesis by auto
qed

lemma resolved_shape:
  assumes "traverse linkDbFields (attachResolvedDbFields rdb ls1) = Inr ls3"
  shows "list_all2 (\<lambda>(k1, l1) (k3, l3). k3 = k1 \<and> isEnabledRef l3 = isEnabledRef l1
           \<and> (\<exists>g. fields_i l3 = map (\<lambda>(fk, f). (fk, f\<lparr>dbField_i := g fk\<rparr>)) (fields_i l1))) ls1 ls3"
proof -
  from traverse_Inr_all2 [OF assms]
  have "list_all2 (\<lambda>x y. linkDbFields (case x of (listKey, blah) \<Rightarrow>
            (listKey, blah\<lparr>resolvedDbFields := map_of rdb listKey\<rparr>)) = Inr y) ls1 ls3"
    by (simp add: attachResolvedDbFields_def list_all2_map1)
  then show ?thesis
    by (rule list_all2_mono) (auto dest!: linkDbFields_shape)
qed


lemma getLists_all2:
  assumes "getListsWithInitialisedFields ext config im h = Inr ls1"
  shows "list_all2 (\<lambda>(k, c) (k1, l1). k1 = k \<and> map_of im k = Some (isEnabledRef l1)
           \<and> list_all2 (\<lambda>(fk, fd) (fk', f). fk' = fk
                 \<and> initialiseField ext (provider_k config) h (isEnabledRef l1) k fk fd = Inr f)
                (fields_c c) (fields_i l1))
         (lists_k config) ls1"
proof -
  from assms have "list_all2 (\<lambda>x y. initialiseListEntry ext (provider_k config) im h x = Inr y)
      (lists_k config) ls1"
    unfolding getListsWithInitialisedFields_def by (rule traverse_Inr_all2)
  then show ?thesis
    by (rule list_all2_mono) (auto dest!: initialiseListEntry_Inr)
qed

lemma lists_r_cascadingDisablement [simp]:
  "lists_r (cascadingDisablement reg) = lists_r reg"
  by (simp add: cascadingDisablement_def)

lemma heap_r_cascadingDisablement:
  "heap_r (cascadingDisablement reg) = fold (\<lambda>(listKey, list). cascadeList list) (lists_r reg) (heap_r reg)"
  by (simp add: cascadingDisablement_def)

lemma final_list:
  assumes "initialiseLists (ext :: ('a, 'la, 'fa) externals) config = Inr res"
    and "(k, l) \<in> set (lists_r (registry_of res))"
  obtains ie c and l1 :: "('la, 'fa) initialisedList" and g where
    "getIsEnabled (lists_k config) = Inr ie"
    "(k, c) \<in> set (lists_k config)"
    "isEnabledRef l = k"
    "k \<in> fst ` set ie"
    "list_all2 (\<lambda>(fk, fd) (fk', f). fk' = fk
        \<and> initialiseField ext (provider_k config) (map_of ie) k k fk fd = Inr f)
       (fields_c c) (fields_i l1)"
    "fields_i l = map (\<lambda>(fk, f). (fk, f\<lparr>dbField_i := g fk\<rparr>)) (fields_i l1)"
proof -
  from assms(1) obtain ie gts ls1 rdb ls3 where
    ie: "getIsEnabled (lists_k config) = Inr ie"
    and ls1: "getListsWithInitialisedFields ext config (map (\<lambda>(key, e). (key, key)) ie) (map_of ie) = Inr ls1"
    and ls3: "traverse linkDbFields (attachResolvedDbFields rdb ls1) = Inr ls3"
    and reg: "registry_of res = cascadingDisablement \<lparr>lists_r = ls3, heap_r = map_of ie\<rparr>"
    by (rule initialiseLists_Inr)
  from assms(2) reg have "(k, l) \<in> set ls3" by simp
  with all2_setD2 [OF resolved_shape [OF ls3]]
  obtain l1 g where l1: "(k, l1) \<in> set ls1" "isEnabledRef l = isEnabledRef l1"
    "fields_i l = map (\<lambda>(fk, f). (fk, f\<lparr>dbField_i := g fk\<rparr>)) (fields_i l1)"
    by fastforce
  with all2_setD2 [OF getLists_all2 [OF ls1]]
  obtain c where c: "(k, c) \<in> set (lists_k config)"
    "map_of (map (\<lambda>(key, e). (key, key)) ie) k = Some (isEnabledRef l1)"
    "list_all2 (\<lambda>(fk, fd) (fk', f). fk' = fk
        \<and> initialiseField ext (provider_k config) (map_of ie) (isEnabledRef l1) k fk fd = Inr f)
       (fields_c c) (fields_i l1)"
    by fastforce
  from c(2) have r: "isEnabledRef l1 = k" "k \<in> fst ` set ie"
    by (simp_all add: map_of_selfref)
  show thesis
    using ie c(1) l1(2) r c(3) l1(3) by (intro that [of ie c l1 g]) simp_all
qed

lemma final_exists:
  assumes "initialiseLists ext config = Inr res"
    and "(k, c) \<in> set (lists_k config)"
  shows "\<exists>l. (k, l) \<in> set (lists_r (registry_of res))"
proof -
  from assms(1) obtain ie gts ls1 rdb ls3 where
    ls1: "getListsWithInitialisedFields ext config (map (\<lambda>(key, e). (key, key)) ie) (map_of ie) = Inr ls1"
    and ls3: "traverse linkDbFields (attachResolvedDbFields rdb ls1) = Inr ls3"
    and reg: "registry_of res = cascadingDisablement \<lparr>lists_r = ls3, heap_r = map_of ie\<rparr>"
    by (rule initialiseLists_Inr)
  from all2_setD1 [OF getLists_all2 [OF ls1] assms(2)]
  obtain l1 where "(k, l1) \<in> set ls1" by fastforce
  from all2_setD1 [OF resolved_shape [OF ls3] this]
  obtain l3 where "(k, l3) \<in> set ls3" by fastforce
  with reg show ?thesis by auto
qed

lemma final_heap:
  assumes "initialiseLists ext config = Inr res"
  obtains ie where
    "getIsEnabled (lists_k config) = Inr ie"
    "heap_r (registry_of res) = fold (\<lambda>(listKey, list). cascadeList list) (lists_r (registry_of res)) (map_of ie)"
proof -
  from assms(1) obtain ie gts ls1 rdb ls3 where
    ie: "getIsEnabled (lists_k config) = Inr ie"
    and reg: "registry_of res = cascadingDisablement \<lparr>lists_r = ls3, heap_r = map_of ie\<rparr>"
    by (rule initialiseLists_Inr)
  from reg have "heap_r (registry_of res) =
      fold (\<lambda>(listKey, list). cascadeList list) (lists_r (registry_of res)) (map_of ie)"
    by (simp add: heap_r_cascadingDisablement)
  with ie show thesis by (rule that)
qed

lemma getIsEnabled_lookup:
  "getIsEnabled cfg = Inr ie \<Longrightarrow> distinct (map fst cfg) \<Longrightarrow> (k, c) \<in> set cfg \<Longrightarrow>
   \<exists>e. getIsEnabled_entry k c = Inr e \<and> map_of ie k = Some e"
proof (induction cfg arbitrary: ie)
  case Nil
  then show ?case by simp
next
  case (Cons a cfg)
  obtain k0 c0 where a: "a = (k0, c0)" by (cases a)
  from Cons.prems(1) a obtain e0 r where
    e0: "getIsEnabled_entry k0 c0 = Inr e0" and r: "getIsEnabled cfg = Inr r" and ie: "ie = (k0, e0) # r"
    by (auto simp: andThen_eq_Inr)
  show ?case
  proof (cases "(k, c) = a")
    case True
    with a e0 ie show ?thesis by simp
  next
    case False
    with Cons.prems(3) have in_tl: "(k, c) \<in> set cfg" by simp
    with Cons.prems(2) a have "k \<noteq> k0" by force
    moreover from Cons.IH [OF r _ in_tl] Cons.prems(2)
    obtain e where "getIsEnabled_entry k c = Inr e" "map_of r k = Some e" by auto
    ultimately show ?thesis using ie by simp
  qed
qed

lemma gatedByRead_truthy: "gatedByRead read v h r sel = Inr x \<Longrightarrow> truthy x \<Longrightarrow> read"
  by (auto simp: gatedByRead_def split: if_splits)

lemma initialiseField_gate:
  assumes "initialiseField ext p h r k fk fd = Inr f"
  shows "(truthy (filter_f (isEnabled_i f)) \<longrightarrow> read_f (isEnabled_i f))
       \<and> (truthy (orderBy_f (isEnabled_i f)) \<longrightarrow> read_f (isEnabled_i f))"
proof (cases fd)
  case (NotFunc v)
  with assms show ?thesis by (simp add: initialiseField_def)
next
  case (FieldFunc fn)
  with assms show ?thesis
    by (auto simp: initialiseField_def Let_def andThen_eq_Inr dest: gatedByRead_truthy)
qed

lemma final_field:
  assumes "initialiseLists (ext :: ('a, 'la, 'fa) externals) config = Inr res"
    and "(k, l) \<in> set (lists_r (registry_of res))"
    and "(fk, f) \<in> set (fields_i l)"
  obtains ie c fd and f1 :: "'fa initialisedField" and d where
    "getIsEnabled (lists_k config) = Inr ie"
    "(k, c) \<in> set (lists_k config)"
    "(fk, fd) \<in> set (fields_c c)"
    "initialiseField ext (provider_k config) (map_of ie) k k fk fd = Inr f1"
    "f = f1\<lparr>dbField_i := d\<rparr>"
proof -
  from assms(1,2) obtain ie c and l1 :: "('la, 'fa) initialisedList" and g where
    ie: "getIsEnabled (lists_k config) = Inr ie"
    and c: "(k, c) \<in> set (lists_k config)"
    and fs: "list_all2 (\<lambda>(fk, fd) (fk', f). fk' = fk
        \<and> initialiseField ext (provider_k config) (map_of ie) k k fk fd = Inr f)
       (fields_c c) (fields_i l1)"
    and l: "fields_i l = map (\<lambda>(fk, f). (fk, f\<lparr>dbField_i := g fk\<rparr>)) (fields_i l1)"
    by (rule final_list)
  from assms(3) l obtain f1 where f1: "(fk, f1) \<in> set (fields_i l1)" "f = f1\<lparr>dbField_i := g fk\<rparr>"
    by auto
  from all2_setD2 [OF fs f1(1)] obtain fd where "(fk, fd) \<in> set (fields_c c)"
    "initialiseField ext (provider_k config) (map_of ie) k k fk fd = Inr f1"
    by auto
  with ie c f1(2) show thesis by (intro that [of ie c fd f1 "g fk"])
qed

subsection \<open>Monotonicity of the cascading disablement\<close>


lemma assign_mono:
  assumes "h x = Some e" and "\<And>e. (create_l (f e) \<longrightarrow> create_l e) \<and> (update_l (f e) \<longrightarrow> update_l e)"
  shows "\<exists>e'. assign r f h x = Some e' \<and> (create_l e' \<longrightarrow> create_l e) \<and> (update_l e' \<longrightarrow> update_l e)"
  using assms by (auto simp: assign_def split: option.splits)

lemma cascadeList_mono:
  assumes "h x = Some e"
  shows "\<exists>e'. cascadeList l h x = Some e' \<and> (create_l e' \<longrightarrow> create_l e) \<and> (update_l e' \<longrightarrow> update_l e)"
proof -
  define h1 where "h1 = (if \<not> hasAnEnabledCreateField l
                then assign (isEnabledRef l) (\<lambda>e. e\<lparr>create_l := False\<rparr>) h else h)"
  from assms have "\<exists>e1. h1 x = Some e1 \<and> (create_l e1 \<longrightarrow> create_l e) \<and> (update_l e1 \<longrightarrow> update_l e)"
    unfolding h1_def by (auto intro: assign_mono)
  then obtain e1 where e1: "h1 x = Some e1" "create_l e1 \<longrightarrow> create_l e" "update_l e1 \<longrightarrow> update_l e"
    by blast
  have "\<exists>e'. cascadeList l h x = Some e' \<and> (create_l e' \<longrightarrow> create_l e1) \<and> (update_l e' \<longrightarrow> update_l e1)"
    unfolding cascadeList_def Let_def h1_def [symmetric]
    using e1(1) by (auto intro: assign_mono)
  with e1 show ?thesis by blast
qed

lemma cascade_fold_mono:
  "h x = Some e \<Longrightarrow>
   \<exists>e'. fold (\<lambda>(listKey, list). cascadeList list) ls h x = Some e'
        \<and> (create_l e' \<longrightarrow> create_l e) \<and> (update_l e' \<longrightarrow> update_l e)"
proof (induction ls arbitrary: h e)
  case Nil
  then show ?case by simp
next
  case (Cons a ls)
  obtain k0 l0 where a: "a = (k0, l0)" by (cases a)
  from cascadeList_mono [of h x e l0, OF Cons.prems]
  obtain e1 where e1: "cascadeList l0 h x = Some e1" "create_l e1 \<longrightarrow> create_l e" "update_l e1 \<longrightarrow> update_l e"
    by blast
  from Cons.IH [of "cascadeList l0 h" e1, OF e1(1)] e1(2,3) a show ?case by auto
qed

lemma cascadeList_disables:
  assumes "h (isEnabledRef l) = Some e"
  shows "\<exists>e'. cascadeList l h (isEnabledRef l) = Some e'
        \<and> (\<not> hasAnEnabledCreateField l \<longrightarrow> \<not> create_l e')
        \<and> (\<not> hasAnEnabledUpdateField l \<longrightarrow> \<not> update_l e')"
  using assms by (auto simp: cascadeList_def Let_def assign_def)

lemma cascade_fold_disables:
  "(k, l) \<in> set ls \<Longrightarrow> h (isEnabledRef l) = Some e \<Longrightarrow>
   \<exists>e'. fold (\<lambda>(listKey, list). cascadeList list) ls h (isEnabledRef l) = Some e'
        \<and> (\<not> hasAnEnabledCreateField l \<longrightarrow> \<not> create_l e')
        \<and> (\<not> hasAnEnabledUpdateField l \<longrightarrow> \<not> update_l e')"
proof (induction ls arbitrary: h e)
  case Nil
  then show ?case by simp
next
  case (Cons a ls)
  obtain k0 l0 where a: "a = (k0, l0)" by (cases a)
  show ?case
  proof (cases "(k, l) = a")
    case True
    with a have l0: "l0 = l" by simp
    from cascadeList_disables [of h l e, OF Cons.prems(2)]
    obtain e1 where e1: "cascadeList l h (isEnabledRef l) = Some e1"
      "\<not> hasAnEnabledCreateField l \<longrightarrow> \<not> create_l e1"
      "\<not> hasAnEnabledUpdateField l \<longrightarrow> \<not> update_l e1"
      by blast
    from cascade_fold_mono [of "cascadeList l h" "isEnabledRef l" e1 ls, OF e1(1)] e1(2,3) a l0 show ?thesis by auto
  next
    case False
    with Cons.prems(1) have in_tl: "(k, l) \<in> set ls" by simp
    from cascadeList_mono [of h "isEnabledRef l" e l0, OF Cons.prems(2)]
    obtain e1 where "cascadeList l0 h (isEnabledRef l) = Some e1" by blast
    from Cons.IH [of "cascadeList l0 h" e1, OF in_tl this] a show ?thesis by simp
  qed
qed

subsection \<open>The cascading disablement, exactly\<close>

lemma all2_keys:
  "list_all2 (\<lambda>x y. fst y = fst x) xs ys \<Longrightarrow> map fst ys = map fst xs"
  by (induction rule: list_all2_induct) auto

lemma final_keys:
  assumes "initialiseLists ext config = Inr res"
  shows "map fst (lists_r (registry_of res)) = map fst (lists_k config)"
proof -
  from assms obtain ie gts ls1 rdb ls3 where
    ls1: "getListsWithInitialisedFields ext config (map (\<lambda>(key, e). (key, key)) ie) (map_of ie) = Inr ls1"
    and ls3: "traverse linkDbFields (attachResolvedDbFields rdb ls1) = Inr ls3"
    and reg: "registry_of res = cascadingDisablement \<lparr>lists_r = ls3, heap_r = map_of ie\<rparr>"
    by (rule initialiseLists_Inr)
  have "list_all2 (\<lambda>x y. fst y = fst x) (lists_k config) ls1"
    using getLists_all2 [OF ls1] by (rule list_all2_mono) auto
  then have 1: "map fst ls1 = map fst (lists_k config)" by (rule all2_keys)
  have "list_all2 (\<lambda>x y. fst y = fst x) ls1 ls3"
    using resolved_shape [OF ls3] by (rule list_all2_mono) auto
  then have "map fst ls3 = map fst ls1" by (rule all2_keys)
  with 1 reg show ?thesis by simp
qed

lemma final_refs:
  assumes "initialiseLists ext config = Inr res"
  shows "map (\<lambda>(k, l). isEnabledRef l) (lists_r (registry_of res)) = map fst (lists_k config)"
proof -
  have "map (\<lambda>(k, l). isEnabledRef l) (lists_r (registry_of res)) = map fst (lists_r (registry_of res))"
  proof (rule map_cong [OF refl])
    fix x
    assume x: "x \<in> set (lists_r (registry_of res))"
    obtain k l where kl: "x = (k, l)" by (cases x)
    with x assms have "isEnabledRef l = k" by (auto elim: final_list)
    with kl show "(case x of (k, l) \<Rightarrow> isEnabledRef l) = fst x" by simp
  qed
  with final_keys [OF assms] show ?thesis by simp
qed

lemma assign_other: "x \<noteq> r \<Longrightarrow> assign r f h x = h x"
  by (simp add: assign_def split: option.splits)

lemma cascadeList_other: "isEnabledRef l \<noteq> x \<Longrightarrow> cascadeList l h x = h x"
  by (auto simp: cascadeList_def Let_def assign_other)

lemma cascade_fold_other:
  "x \<notin> set (map (\<lambda>(k, l). isEnabledRef l) ls) \<Longrightarrow>
   fold (\<lambda>(listKey, list). cascadeList list) ls h x = h x"
  by (induction ls arbitrary: h) (auto simp: cascadeList_other)

lemma cascadeList_exact:
  assumes "h (isEnabledRef l) = Some e"
  shows "cascadeList l h (isEnabledRef l) =
     Some (e\<lparr>create_l := create_l e \<and> hasAnEnabledCreateField l,
             update_l := update_l e \<and> hasAnEnabledUpdateField l\<rparr>)"
  using assms by (cases e) (auto simp: cascadeList_def Let_def assign_def)

lemma cascade_fold_exact:
  "(k, l) \<in> set ls \<Longrightarrow> distinct (map (\<lambda>(k, l). isEnabledRef l) ls) \<Longrightarrow>
   h (isEnabledRef l) = Some e \<Longrightarrow>
   fold (\<lambda>(listKey, list). cascadeList list) ls h (isEnabledRef l) =
     Some (e\<lparr>create_l := create_l e \<and> hasAnEnabledCreateField l,
             update_l := update_l e \<and> hasAnEnabledUpdateField l\<rparr>)"
proof (induction ls arbitrary: h)
  case Nil
  then show ?case by simp
next
  case (Cons a ls)
  obtain k0 l0 where a: "a = (k0, l0)" by (cases a)
  show ?case
  proof (cases "(k, l) = a")
    case True
    with a have l0: "l0 = l" by simp
    from Cons.prems(2) a l0 have "isEnabledRef l \<notin> set (map (\<lambda>(k, l). isEnabledRef l) ls)"
      by simp
    from cascade_fold_other [OF this, of "cascadeList l h"] cascadeList_exact [of h l e, OF Cons.prems(3)] a l0
    show ?thesis by simp
  next
    case False
    with Cons.prems(1) have in_tl: "(k, l) \<in> set ls" by simp
    then have "isEnabledRef l \<in> set (map (\<lambda>(k, l). isEnabledRef l) ls)" by force
    with Cons.prems(2) a have ne: "isEnabledRef l0 \<noteq> isEnabledRef l" by auto
    from Cons.prems(2) have d: "distinct (map (\<lambda>(k, l). isEnabledRef l) ls)" by simp
    from cascadeList_other [OF ne, of h] Cons.prems(3)
    have "cascadeList l0 h (isEnabledRef l) = Some e" by simp
    from Cons.IH [of "cascadeList l0 h", OF in_tl d this] a show ?thesis by simp
  qed
qed

subsection \<open>The blog, evaluated\<close>

lemma blog_resolves: "initialiseLists exampleExternals blogConfig = Inr blogResolution"
  by (simp add: blogResolution_def eval_defs)

lemma blog_lists:
  "lists_r (registry_of blogResolution) = [(''Post'', blogPost), (''Person'', blogPerson), (''Audit'', blogAudit)]"
  by (simp add: blogResolution_def blogPost_def blogPerson_def blogAudit_def eval_defs)

lemma blog_heap_Person:
  "heap_r (registry_of blogResolution) ''Person'' =
     Some \<lparr>type_l = True, query_l = False, create_l = False, update_l = False,
           delete_l = True, filter_l = JBool True, orderBy_l = JBool True\<rparr>"
  by (simp add: blogResolution_def eval_defs)

lemma blog_types:
  "types_of blogResolution =
     [(''Post'', blogTypes ''Post'' postList True),
      (''Person'', blogTypes ''Person'' personList True),
      (''Audit'', blogTypes ''Audit'' auditList False)]"
  by (simp add: blogResolution_def blogTypes_def blogIntermediate_def eval_defs)

section \<open>The types of a resolution\<close>

lemma getListGraphqlTypes_entry_Inr:
  assumes "getListGraphqlTypes_entry im h (k, c) = Inr (k', t)"
  shows "k' = k \<and> (\<exists>r e. map_of im k = Some r \<and> h r = Some e
      \<and> output_t t = output_fields k im
      \<and> uniqueWhere_t t = uniqueWhere_fields k
      \<and> findManyArgs_t t = mkFindManyArgs k c
      \<and> relateToManyForCreate t =
           (if type_l e then Some (\<lambda>reg. relateToManyForCreate_fields k r (heap_r reg)) else None)
      \<and> relateToManyForUpdate t =
           (if type_l e then Some (\<lambda>reg. relateToManyForUpdate_fields k r (heap_r reg)) else None)
      \<and> relateToOneForCreate t =
           (if type_l e then Some (\<lambda>reg. relateToOneForCreate_fields k r (heap_r reg)) else None)
      \<and> relateToOneForUpdate t =
           (if type_l e then Some (\<lambda>reg. relateToOneForUpdate_fields k r (heap_r reg)) else None))"
  using assms
  by (auto simp: getListGraphqlTypes_entry_def deref_def andThen_eq_Inr split: option.splits)

lemma types_all2:
  assumes "getListGraphqlTypes cfg im h = Inr gts"
  shows "list_all2 (\<lambda>(k, c) (k', t). k' = k \<and> getListGraphqlTypes_entry im h (k, c) = Inr (k, t)) cfg gts"
proof -
  from assms have "list_all2 (\<lambda>x y. getListGraphqlTypes_entry im h x = Inr y) cfg gts"
    unfolding getListGraphqlTypes_def by (rule traverse_Inr_all2)
  then show ?thesis
    by (rule list_all2_mono) (auto dest: getListGraphqlTypes_entry_Inr)
qed

lemma final_types:
  assumes "initialiseLists ext config = Inr res"
    and "(k, t) \<in> set (types_of res)"
  obtains ie c e0 where
    "getIsEnabled (lists_k config) = Inr ie"
    "(k, c) \<in> set (lists_k config)"
    "map_of ie k = Some e0"
    "output_t t = output_fields k (map (\<lambda>(key, e). (key, key)) ie)"
    "uniqueWhere_t t = uniqueWhere_fields k"
    "findManyArgs_t t = mkFindManyArgs k c"
    "relateToManyForCreate t =
           (if type_l e0 then Some (\<lambda>reg. relateToManyForCreate_fields k k (heap_r reg)) else None)"
    "relateToManyForUpdate t =
           (if type_l e0 then Some (\<lambda>reg. relateToManyForUpdate_fields k k (heap_r reg)) else None)"
    "relateToOneForCreate t =
           (if type_l e0 then Some (\<lambda>reg. relateToOneForCreate_fields k k (heap_r reg)) else None)"
    "relateToOneForUpdate t =
           (if type_l e0 then Some (\<lambda>reg. relateToOneForUpdate_fields k k (heap_r reg)) else None)"
proof -
  from assms(1) obtain ie gts ls1 rdb ls3 where
    ie: "getIsEnabled (lists_k config) = Inr ie"
    and gts: "getListGraphqlTypes (lists_k config) (map (\<lambda>(key, e). (key, key)) ie) (map_of ie) = Inr gts"
    and ty: "types_of res = gts"
    by (rule initialiseLists_Inr)
  from assms(2) ty have "(k, t) \<in> set gts" by simp
  from all2_setD2 [OF types_all2 [OF gts] this]
  obtain c where c: "(k, c) \<in> set (lists_k config)"
    "getListGraphqlTypes_entry (map (\<lambda>(key, e). (key, key)) ie) (map_of ie) (k, c) = Inr (k, t)"
    by fastforce
  from getListGraphqlTypes_entry_Inr [OF c(2)]
  obtain r e0 where r: "map_of (map (\<lambda>(key, e). (key, key)) ie) k = Some r" and e0: "map_of ie r = Some e0"
    and t: "output_t t = output_fields k (map (\<lambda>(key, e). (key, key)) ie)"
      "uniqueWhere_t t = uniqueWhere_fields k"
      "findManyArgs_t t = mkFindManyArgs k c"
      "relateToManyForCreate t =
           (if type_l e0 then Some (\<lambda>reg. relateToManyForCreate_fields k r (heap_r reg)) else None)"
      "relateToManyForUpdate t =
           (if type_l e0 then Some (\<lambda>reg. relateToManyForUpdate_fields k r (heap_r reg)) else None)"
      "relateToOneForCreate t =
           (if type_l e0 then Some (\<lambda>reg. relateToOneForCreate_fields k r (heap_r reg)) else None)"
      "relateToOneForUpdate t =
           (if type_l e0 then Some (\<lambda>reg. relateToOneForUpdate_fields k r (heap_r reg)) else None)"
    by blast
  from r have rk: "r = k" by (simp add: map_of_selfref)
  show thesis
    using ie c(1) e0 t unfolding rk by (rule that)
qed

lemma final_types_exists:
  assumes "initialiseLists ext config = Inr res"
    and "(k, c) \<in> set (lists_k config)"
  shows "\<exists>t. (k, t) \<in> set (types_of res)"
proof -
  from assms(1) obtain ie gts ls1 rdb ls3 where
    gts: "getListGraphqlTypes (lists_k config) (map (\<lambda>(key, e). (key, key)) ie) (map_of ie) = Inr gts"
    and ty: "types_of res = gts"
    by (rule initialiseLists_Inr)
  from all2_setD1 [OF types_all2 [OF gts] assms(2)]
  obtain t where "(k, t) \<in> set gts"
    by fastforce
  with ty show ?thesis by auto
qed

lemma distinct_key_unique:
  "distinct (map fst xs) \<Longrightarrow> (k, a) \<in> set xs \<Longrightarrow> (k, b) \<in> set xs \<Longrightarrow> a = b"
  by (meson eq_key_imp_eq_value)

section \<open>Objects built by the thunks\<close>

lemma relateTo_keys:
  assumes "h r = Some e"
  shows "\<exists>obj. relateToManyForCreate_fields k r h = Inr obj
            \<and> (''create'' \<in> fst ` set obj \<longleftrightarrow> create_l e) \<and> ''connect'' \<in> fst ` set obj"
    and "\<exists>obj. relateToManyForUpdate_fields k r h = Inr obj
            \<and> (''create'' \<in> fst ` set obj \<longleftrightarrow> create_l e) \<and> ''connect'' \<in> fst ` set obj"
    and "\<exists>obj. relateToOneForCreate_fields k r h = Inr obj
            \<and> (''create'' \<in> fst ` set obj \<longleftrightarrow> create_l e) \<and> ''connect'' \<in> fst ` set obj"
    and "\<exists>obj. relateToOneForUpdate_fields k r h = Inr obj
            \<and> (''create'' \<in> fst ` set obj \<longleftrightarrow> create_l e) \<and> ''connect'' \<in> fst ` set obj"
  using assms
  by (auto simp: relateToManyForCreate_fields_def relateToManyForUpdate_fields_def
        relateToOneForCreate_fields_def relateToOneForUpdate_fields_def deref_def)

lemma set_update_subset: "set (AList.update k v al) \<subseteq> insert (k, v) (set al)"
  by (induction al) auto

lemma fold_update_subset:
  "set (fold (\<lambda>(k, v). AList.update k v) es acc) \<subseteq> set es \<union> set acc"
proof (induction es arbitrary: acc)
  case Nil
  then show ?case by simp
next
  case (Cons a es)
  obtain k v where a: "a = (k, v)" by (cases a)
  from Cons.IH [of "AList.update k v acc"] set_update_subset [of k v acc] a
  show ?case by auto
qed

lemma fromEntries_subset: "set (fromEntries es) \<subseteq> set es"
  using fold_update_subset [of es "[]"] by (simp add: fromEntries_def)

lemma fold_update_keys:
  "fst ` set (fold (\<lambda>(k, v). AList.update k v) es acc) = fst ` set es \<union> fst ` set acc"
proof (induction es arbitrary: acc)
  case Nil
  then show ?case by simp
next
  case (Cons a es)
  obtain k v where a: "a = (k, v)" by (cases a)
  from Cons.IH [of "AList.update k v acc"] a
  show ?case by (auto simp: dom_update)
qed

lemma fromEntries_keys: "fst ` set (fromEntries es) = fst ` set es"
  using fold_update_keys [of es "[]"] by (simp add: fromEntries_def)

lemma outputEntries_Inr:
  assumes "outputEntries k im h (fk, f) = Inr es" and "(n, entry) \<in> set es"
  shows "of_fieldPath entry = fk \<and> (n = fk \<or> n \<in> fst ` set (extraOutputFields_i f))
       \<and> read_f (isEnabled_i f)
       \<and> (\<exists>db. dbField_i f = Some db \<and> targetNotQueryable im h db = Inr False)"
  using assms
  by (auto simp: outputEntries_def andThen_eq_Inr split: option.splits if_splits) force+

lemma output_origin:
  assumes "traverse (outputEntries k im h) fs = Inr ess" and "(n, entry) \<in> set (concat ess)"
  shows "\<exists>fk f es. (fk, f) \<in> set fs \<and> outputEntries k im h (fk, f) = Inr es \<and> (n, entry) \<in> set es"
proof -
  from assms(2) obtain es where es: "es \<in> set ess" "(n, entry) \<in> set es" by auto
  from all2_setD2 [OF traverse_Inr_all2 [OF assms(1)] es(1)]
  obtain x where "x \<in> set fs" "outputEntries k im h x = Inr es" by blast
  with es(2) show ?thesis by (cases x) blast
qed

lemma target_hidden:
  "map_of im tk = Some r \<Longrightarrow> h r = Some e \<Longrightarrow> \<not> query_l e \<Longrightarrow>
   targetNotQueryable im h (Relation tk x) = Inr True"
  by (simp add: targetNotQueryable_def deref_def)

lemma output_fields_Inr:
  assumes "output_fields k im reg = Inr out" and "map_of (lists_r reg) k = Some l"
  obtains ess where "traverse (outputEntries k im (heap_r reg)) (fields_i l) = Inr ess"
    "out = fromEntries (concat ess)"
  using assms by (auto simp: output_fields_def andThen_eq_Inr)

lemma uniqueWhere_keys:
  "fk \<in> fst ` set (concat (map uniqueWhereEntries fs)) \<longleftrightarrow>
   (\<exists>f. (fk, f) \<in> set fs \<and> argOf (uniqueWhere_in (input_i f)) \<noteq> None
        \<and> read_f (isEnabled_i f) \<and> truthy (filter_f (isEnabled_i f)))"
proof (induction fs)
  case Nil
  then show ?case by simp
next
  case (Cons a fs)
  obtain k f where a: "a = (k, f)" by (cases a)
  have "fk \<in> fst ` set (uniqueWhereEntries (k, f)) \<longleftrightarrow>
        (fk = k \<and> argOf (uniqueWhere_in (input_i f)) \<noteq> None
         \<and> read_f (isEnabled_i f) \<and> truthy (filter_f (isEnabled_i f)))"
    by (cases "argOf (uniqueWhere_in (input_i f))") (auto simp: uniqueWhereEntries_def)
  with Cons.IH a show ?case by (auto simp: image_Un)
qed

subsection \<open>Thunks of the blog and of the tag list, evaluated\<close>

lemma blog_output_Post:
  "output_t (blogTypes ''Post'' postList True) (registry_of blogResolution) =
     Inr [(''id'', \<lparr>of_outputField = OutputField GInt, of_dbField = NonRelation Scalar,
                    of_access = (), of_listKey = ''Post'', of_fieldPath = ''id''\<rparr>),
          (''slug'', \<lparr>of_outputField = OutputField GInt, of_dbField = NonRelation Scalar,
                      of_access = (), of_listKey = ''Post'', of_fieldPath = ''slug''\<rparr>),
          (''title'', \<lparr>of_outputField = OutputField GInt, of_dbField = NonRelation Scalar,
                       of_access = (), of_listKey = ''Post'', of_fieldPath = ''title''\<rparr>)]"
  by (simp add: blogTypes_def output_fields_def outputEntries_def targetNotQueryable_def
      fromEntries_def blog_lists blogPost_def blog_heap_Person deref_def blogIntermediate_def)

lemma blog_uniqueWhere_Post:
  "uniqueWhere_t (blogTypes ''Post'' postList True) (registry_of blogResolution) =
     Inr [(''id'', mkArg GID), (''slug'', mkArg GID)]"
  by (simp add: blogTypes_def uniqueWhere_fields_def uniqueWhereEntries_def
      fromEntries_def blog_lists blogPost_def mkArg_def)

lemma tag_resolves: "initialiseLists exampleExternals tagConfig = Inr tagResolution"
  by (simp add: tagResolution_def tagConfig_def tagList_def eval_defs)

section \<open>Validation of the list defaults\<close>

text \<open>
  C7 (as amended). The claim reads: an invalid \<open>defaultIsFilterable\<close> or
  \<open>defaultIsOrderable\<close> (neither a boolean, nor \<open>undefined\<close>, nor a function) raises
  a fatal configuration error regardless of \<open>graphql.omit\<close>. The two checks are guarded
  by \<open>if (!omit)\<close>. What holds: for a list whose \<open>graphql.omit\<close> is falsy (in
  particular \<open>undefined\<close>), an invalid default makes \<open>getIsEnabled\<close> throw the
  configuration error for that list and so aborts \<open>initialiseLists\<close>; for a list with
  \<open>graphql.omit: true\<close> the defaults are not looked at and the list resolves to the
  all-false enablement.
\<close>

theorem invalid_list_default_rejected_unless_omitted_entirely:
  assumes "(listKey, listConfig) \<in> set (lists_k config)"
    and "typeof (defaultIsFilterable listConfig) \<notin> set [''boolean'', ''undefined'', ''function'']
         \<or> typeof (defaultIsOrderable listConfig) \<notin> set [''boolean'', ''undefined'', ''function'']"
  shows "(\<not> truthy (omit_c listConfig) \<longrightarrow>
            (\<exists>f v. getIsEnabled_entry listKey listConfig = Inl (NotAFilter listKey f v))
            \<and> (\<exists>e. initialiseLists ext config = Inl e))
         \<and> (omit_c listConfig = JBool True \<longrightarrow>
            getIsEnabled_entry listKey listConfig =
              Inr \<lparr>type_l = False, query_l = False, create_l = False, update_l = False,
                   delete_l = False, filter_l = JBool False, orderBy_l = JBool False\<rparr>)"
proof (intro conjI impI)
  assume falsy: "\<not> truthy (omit_c listConfig)"
  from entry_bad_default [OF falsy assms(2)]
  show bad: "\<exists>f v. getIsEnabled_entry listKey listConfig = Inl (NotAFilter listKey f v)" .
  then obtain e where "getIsEnabled_entry listKey listConfig = Inl e" by blast
  from getIsEnabled_Inl [OF assms(1) this]
  obtain e' where "getIsEnabled (lists_k config) = Inl e'" ..
  then have "initialiseLists ext config = Inl e'" by (rule initialiseLists_getIsEnabled_Inl)
  then show "\<exists>e. initialiseLists ext config = Inl e" ..
next
  assume "omit_c listConfig = JBool True"
  then show "getIsEnabled_entry listKey listConfig =
              Inr \<lparr>type_l = False, query_l = False, create_l = False, update_l = False,
                   delete_l = False, filter_l = JBool False, orderBy_l = JBool False\<rparr>"
    by (rule entry_omit_true)
qed

theorem invalid_list_default_rejected_unless_omitted_entirely_witness:
  "(''Post'', listWith JUndefined (JStr ''yes'') None []) \<in> set (lists_k (configOf [(''Post'', listWith JUndefined (JStr ''yes'') None [])]))
   \<and> typeof (defaultIsFilterable (listWith JUndefined (JStr ''yes'') None [])) \<notin> set [''boolean'', ''undefined'', ''function'']
   \<and> \<not> truthy (omit_c (listWith JUndefined (JStr ''yes'') None []))
   \<and> (\<exists>e. initialiseLists exampleExternals (configOf [(''Post'', listWith JUndefined (JStr ''yes'') None [])]) = Inl e)
   \<and> (''Audit'', listWith (JBool True) (JNum 1) None []) \<in> set (lists_k (configOf [(''Audit'', listWith (JBool True) (JNum 1) None [])]))
   \<and> typeof (defaultIsFilterable (listWith (JBool True) (JNum 1) None [])) \<notin> set [''boolean'', ''undefined'', ''function'']
   \<and> omit_c (listWith (JBool True) (JNum 1) None []) = JBool True
   \<and> getIsEnabled_entry ''Audit'' (listWith (JBool True) (JNum 1) None []) =
       Inr \<lparr>type_l = False, query_l = False, create_l = False, update_l = False,
            delete_l = False, filter_l = JBool False, orderBy_l = JBool False\<rparr>"
  using invalid_list_default_rejected_unless_omitted_entirely [of "''Post''" "listWith JUndefined (JStr ''yes'') None []"
                       "configOf [(''Post'', listWith JUndefined (JStr ''yes'') None [])]" exampleExternals]
        invalid_list_default_rejected_unless_omitted_entirely [of "''Audit''" "listWith (JBool True) (JNum 1) None []"
                       "configOf [(''Audit'', listWith (JBool True) (JNum 1) None [])]" exampleExternals]
  by (simp add: listWith_def configOf_def)

text \<open>
  C7 (counterexample). A list with \<open>omit: true\<close> and \<open>defaultIsFilterable: 'yes'\<close>:
  the default is invalid and the resolution succeeds.
\<close>

theorem invalid_list_default_accepted_when_omitted:
  "typeof (defaultIsFilterable (listWith (JBool True) (JStr ''yes'') None [])) \<notin> set [''boolean'', ''undefined'', ''function'']
   \<and> \<not> isl (initialiseLists exampleExternals (configOf [(''Audit'', listWith (JBool True) (JStr ''yes'') None [])]))"
  by (simp add: eval_defs)


section \<open>Validation of the omission\<close>

text \<open>
  C6 (as amended). The claim reads: a \<open>graphql.omit\<close> other than \<open>true\<close>,
  \<open>undefined\<close> or a set of operations among \<open>query\<close>, \<open>create\<close>, \<open>update\<close>,
  \<open>delete\<close> causes a fatal configuration error. \<open>getIsEnabled\<close> has no check of
  \<open>omit\<close>: whatever is neither \<open>true\<close> nor \<open>undefined\<close> is asked
  \<open>omit.includes(...)\<close>. What holds: a \<open>graphql.omit\<close> that is \<open>null\<close>, \<open>false\<close>,
  a number or a function aborts the resolution (it has no \<open>includes\<close>); an array is
  never rejected by \<open>getIsEnabled\<close>, whatever its elements: \<open>getIsEnabled\<close> gives the
  list \<open>type\<close> enabled and each of \<open>query\<close>, \<open>create\<close>, \<open>update\<close>, \<open>delete\<close>
  enabled exactly when its name is not an element of the array, every other element
  being ignored; and when the resolution succeeds, the list's \<open>isEnabled\<close> object in
  the final store keeps these values of \<open>type\<close>, \<open>query\<close>, \<open>delete\<close>, \<open>filter\<close>
  and \<open>orderBy\<close>, while \<open>create\<close> (\<open>update\<close>) is enabled exactly when its name is
  not an element of the array and the cascading disablement found a field of the list
  with a create input and \<open>create\<close> enabled (an update input and \<open>update\<close> enabled).
  The keys of the lists are distinct, as the keys of a JavaScript object are.
\<close>

theorem omit_rejected_only_without_includes:
  assumes "(listKey, listConfig) \<in> set (lists_k config)"
  shows "(omit_c listConfig \<in> {JNull, JBool False, JNaN} \<union> range JNum \<union> range JFun \<longrightarrow>
            (\<exists>e. initialiseLists ext config = Inl e))
         \<and> (\<forall>xs. omit_c listConfig = JArr xs \<longrightarrow>
              getIsEnabled_entry listKey listConfig =
                Inr \<lparr>type_l = True,
                     query_l = (JStr ''query'' \<notin> set xs),
                     create_l = (JStr ''create'' \<notin> set xs),
                     update_l = (JStr ''update'' \<notin> set xs),
                     delete_l = (JStr ''delete'' \<notin> set xs),
                     filter_l = nullish (defaultIsFilterable listConfig) (JBool True),
                     orderBy_l = nullish (defaultIsOrderable listConfig) (JBool True)\<rparr>
              \<and> (\<forall>res list. distinct (map fst (lists_k config))
                     \<and> initialiseLists ext config = Inr res
                     \<and> (listKey, list) \<in> set (lists_r (registry_of res)) \<longrightarrow>
                   heap_r (registry_of res) (isEnabledRef list) =
                     Some \<lparr>type_l = True,
                           query_l = (JStr ''query'' \<notin> set xs),
                           create_l = (JStr ''create'' \<notin> set xs \<and> hasAnEnabledCreateField list),
                           update_l = (JStr ''update'' \<notin> set xs \<and> hasAnEnabledUpdateField list),
                           delete_l = (JStr ''delete'' \<notin> set xs),
                           filter_l = nullish (defaultIsFilterable listConfig) (JBool True),
                           orderBy_l = nullish (defaultIsOrderable listConfig) (JBool True)\<rparr>))"
proof (intro conjI impI allI)
  assume "omit_c listConfig \<in> {JNull, JBool False, JNaN} \<union> range JNum \<union> range JFun"
  then obtain e where "getIsEnabled_entry listKey listConfig = Inl e"
    using entry_no_includes by blast
  from getIsEnabled_Inl [OF assms this]
  obtain e' where "getIsEnabled (lists_k config) = Inl e'" ..
  then have "initialiseLists ext config = Inl e'" by (rule initialiseLists_getIsEnabled_Inl)
  then show "\<exists>e. initialiseLists ext config = Inl e" ..
next
  fix xs
  assume "omit_c listConfig = JArr xs"
  then show "getIsEnabled_entry listKey listConfig =
                Inr \<lparr>type_l = True,
                     query_l = (JStr ''query'' \<notin> set xs),
                     create_l = (JStr ''create'' \<notin> set xs),
                     update_l = (JStr ''update'' \<notin> set xs),
                     delete_l = (JStr ''delete'' \<notin> set xs),
                     filter_l = nullish (defaultIsFilterable listConfig) (JBool True),
                     orderBy_l = nullish (defaultIsOrderable listConfig) (JBool True)\<rparr>"
    by (rule entry_array)
next
  fix xs res list
  assume arr: "omit_c listConfig = JArr xs"
  assume "distinct (map fst (lists_k config))
            \<and> initialiseLists ext config = Inr res
            \<and> (listKey, list) \<in> set (lists_r (registry_of res))"
  then have d: "distinct (map fst (lists_k config))"
    and init: "initialiseLists ext config = Inr res"
    and list: "(listKey, list) \<in> set (lists_r (registry_of res))"
    by simp_all
  let ?e0 = "\<lparr>type_l = True,
                     query_l = (JStr ''query'' \<notin> set xs),
                     create_l = (JStr ''create'' \<notin> set xs),
                     update_l = (JStr ''update'' \<notin> set xs),
                     delete_l = (JStr ''delete'' \<notin> set xs),
                     filter_l = nullish (defaultIsFilterable listConfig) (JBool True),
                     orderBy_l = nullish (defaultIsOrderable listConfig) (JBool True)\<rparr>"
  from init list obtain ie where ref: "isEnabledRef list = listKey"
    and ie: "getIsEnabled (lists_k config) = Inr ie"
    by (rule final_list)
  from init obtain ie' where ie': "getIsEnabled (lists_k config) = Inr ie'"
    and heap: "heap_r (registry_of res) =
      fold (\<lambda>(listKey, list). cascadeList list) (lists_r (registry_of res)) (map_of ie')"
    by (rule final_heap)
  from ie ie' have same: "ie' = ie" by simp
  from getIsEnabled_lookup [OF ie d assms] entry_array [OF arr, of listKey]
  have "map_of ie listKey = Some ?e0" by auto
  with ref have h0: "map_of ie (isEnabledRef list) = Some ?e0" by simp
  from final_refs [OF init] d
  have dr: "distinct (map (\<lambda>(k, l). isEnabledRef l) (lists_r (registry_of res)))" by simp
  from cascade_fold_exact [of listKey list "lists_r (registry_of res)" "map_of ie", OF list dr h0] heap same
  show "heap_r (registry_of res) (isEnabledRef list) =
                     Some \<lparr>type_l = True,
                           query_l = (JStr ''query'' \<notin> set xs),
                           create_l = (JStr ''create'' \<notin> set xs \<and> hasAnEnabledCreateField list),
                           update_l = (JStr ''update'' \<notin> set xs \<and> hasAnEnabledUpdateField list),
                           delete_l = (JStr ''delete'' \<notin> set xs),
                           filter_l = nullish (defaultIsFilterable listConfig) (JBool True),
                           orderBy_l = nullish (defaultIsOrderable listConfig) (JBool True)\<rparr>"
    by simp
qed


theorem omit_rejected_only_without_includes_witness:
  "(''Post'', listWith (JBool False) JUndefined None []) \<in> set (lists_k (configOf [(''Post'', listWith (JBool False) JUndefined None [])]))
   \<and> omit_c (listWith (JBool False) JUndefined None []) \<in> {JNull, JBool False, JNaN} \<union> range JNum \<union> range JFun
   \<and> (\<exists>e. initialiseLists exampleExternals (configOf [(''Post'', listWith (JBool False) JUndefined None [])]) = Inl e)
   \<and> (''Person'', personList) \<in> set (lists_k blogConfig)
   \<and> omit_c personList = JArr [JStr ''query'']
   \<and> getIsEnabled_entry ''Person'' personList =
        Inr \<lparr>type_l = True, query_l = False, create_l = True, update_l = True, delete_l = True,
             filter_l = JBool True, orderBy_l = JBool True\<rparr>
   \<and> distinct (map fst (lists_k blogConfig))
   \<and> initialiseLists exampleExternals blogConfig = Inr blogResolution
   \<and> (''Person'', blogPerson) \<in> set (lists_r (registry_of blogResolution))
   \<and> \<not> hasAnEnabledCreateField blogPerson
   \<and> \<not> hasAnEnabledUpdateField blogPerson
   \<and> heap_r (registry_of blogResolution) (isEnabledRef blogPerson) =
        Some \<lparr>type_l = True, query_l = False, create_l = False, update_l = False, delete_l = True,
              filter_l = JBool True, orderBy_l = JBool True\<rparr>"
proof -
  let ?bad = "listWith (JBool False) JUndefined None []"
  have 1: "(''Post'', ?bad) \<in> set (lists_k (configOf [(''Post'', ?bad)]))"
    by (simp add: configOf_def)
  have 2: "omit_c ?bad \<in> {JNull, JBool False, JNaN} \<union> range JNum \<union> range JFun"
    by (simp add: listWith_def)
  from omit_rejected_only_without_includes [OF 1, of exampleExternals] 2
  have 3: "\<exists>e. initialiseLists exampleExternals (configOf [(''Post'', ?bad)]) = Inl e"
    by blast
  have 4: "(''Person'', personList) \<in> set (lists_k blogConfig)"
    by (simp add: blogConfig_def configOf_def)
  have 5: "omit_c personList = JArr [JStr ''query'']"
    by (simp add: personList_def listWith_def)
  have 6: "distinct (map fst (lists_k blogConfig))"
    by (simp add: blogConfig_def configOf_def)
  have 7: "(''Person'', blogPerson) \<in> set (lists_r (registry_of blogResolution))"
    by (simp add: blog_lists)
  have 8: "\<not> hasAnEnabledCreateField blogPerson" "\<not> hasAnEnabledUpdateField blogPerson"
    by (simp_all add: hasAnEnabledCreateField_def hasAnEnabledUpdateField_def blogPerson_def)
  have nf: "nullish (defaultIsFilterable personList) (JBool True) = JBool True"
    "nullish (defaultIsOrderable personList) (JBool True) = JBool True"
    by (simp_all add: personList_def listWith_def nullish_def)
  from omit_rejected_only_without_includes [OF 4, of exampleExternals] 5
  have both: "getIsEnabled_entry ''Person'' personList =
        Inr \<lparr>type_l = True, query_l = False, create_l = True, update_l = True, delete_l = True,
             filter_l = JBool True, orderBy_l = JBool True\<rparr>
    \<and> (\<forall>res list. distinct (map fst (lists_k blogConfig))
                     \<and> initialiseLists exampleExternals blogConfig = Inr res
                     \<and> (''Person'', list) \<in> set (lists_r (registry_of res)) \<longrightarrow>
          heap_r (registry_of res) (isEnabledRef list) =
            Some \<lparr>type_l = True, query_l = False,
                  create_l = hasAnEnabledCreateField list,
                  update_l = hasAnEnabledUpdateField list,
                  delete_l = True, filter_l = JBool True, orderBy_l = JBool True\<rparr>)"
    by (simp add: nf)
  then have 9: "getIsEnabled_entry ''Person'' personList =
        Inr \<lparr>type_l = True, query_l = False, create_l = True, update_l = True, delete_l = True,
             filter_l = JBool True, orderBy_l = JBool True\<rparr>" ..
  from both 6 blog_resolves 7 8
  have 10: "heap_r (registry_of blogResolution) (isEnabledRef blogPerson) =
        Some \<lparr>type_l = True, query_l = False, create_l = False, update_l = False, delete_l = True,
              filter_l = JBool True, orderBy_l = JBool True\<rparr>"
    by auto
  from 1 2 3 4 5 9 6 blog_resolves 7 8 10 show ?thesis by blast
qed

text \<open>
  C6 (counterexample). \<open>omit: ['read']\<close> is not a set of operations among the four,
  and the resolution succeeds, with every flag of the list enabled.
\<close>

theorem omit_with_unknown_operation_accepted:
  "\<not> set [JStr ''read''] \<subseteq> set [JStr ''query'', JStr ''create'', JStr ''update'', JStr ''delete'']
   \<and> \<not> isl (initialiseLists exampleExternals
               (configOf [(''Post'', listWith (JArr [JStr ''read'']) JUndefined None
                             [(''id'', FieldFunc (scalarField JUndefined JUndefined True))])]))
   \<and> heap_r (registry_of (projr (initialiseLists exampleExternals
               (configOf [(''Post'', listWith (JArr [JStr ''read'']) JUndefined None
                             [(''id'', FieldFunc (scalarField JUndefined JUndefined True))])])))) ''Post''
      = Some \<lparr>type_l = True, query_l = True, create_l = True, update_l = True, delete_l = True,
              filter_l = JBool True, orderBy_l = JBool True\<rparr>"
  by (simp add: eval_defs)

section \<open>The cascading disablement\<close>

lemma assign_create_otherFlags:
  "map_option otherFlags (assign r (\<lambda>e. e\<lparr>create_l := False\<rparr>) h x) = map_option otherFlags (h x)"
  by (auto simp: assign_def otherFlags_def split: option.splits)

lemma assign_update_otherFlags:
  "map_option otherFlags (assign r (\<lambda>e. e\<lparr>update_l := False\<rparr>) h x) = map_option otherFlags (h x)"
  by (auto simp: assign_def otherFlags_def split: option.splits)

lemma cascadeList_otherFlags:
  "map_option otherFlags (cascadeList l h x) = map_option otherFlags (h x)"
  by (simp add: cascadeList_def Let_def assign_create_otherFlags assign_update_otherFlags)

lemma cascade_fold_otherFlags:
  "map_option otherFlags (fold (\<lambda>(listKey, list). cascadeList list) ls h x) = map_option otherFlags (h x)"
  by (induction ls arbitrary: h) (auto simp: cascadeList_otherFlags)

text \<open>
  C9. The cascading disablement changes only the \<open>create\<close> and \<open>update\<close> flags of
  lists: the lists with all their fields (and so every field-level flag) are the same
  after the step, and at every address of the store the flags \<open>type\<close>, \<open>query\<close>,
  \<open>delete\<close>, \<open>filter\<close> and \<open>orderBy\<close> are the same (no object appears or
  disappears either).
\<close>

theorem cascadingDisablement_frame:
  "lists_r (cascadingDisablement reg) = lists_r reg
   \<and> map_option otherFlags (heap_r (cascadingDisablement reg) r) = map_option otherFlags (heap_r reg r)"
  by (simp add: cascadingDisablement_def cascade_fold_otherFlags)


theorem cascadingDisablement_frame_witness:
  "map_option otherFlags
     (heap_r (cascadingDisablement
        \<lparr>lists_r = [(''Audit'', \<lparr>fields_i = [], resolvedDbFields = Some [], isEnabledRef = ''Audit'',
                                  access_i_l = (), listKey_i = ''Audit'', isSingleton_i = False\<rparr>)],
         heap_r = [''Audit'' \<mapsto> \<lparr>type_l = True, query_l = True, create_l = True, update_l = True,
                                   delete_l = True, filter_l = JBool True, orderBy_l = JFun 0\<rparr>]\<rparr>) ''Audit'')
   = Some (True, True, True, JBool True, JFun 0)"
  using cascadingDisablement_frame
    [of "\<lparr>lists_r = [(''Audit'', \<lparr>fields_i = [], resolvedDbFields = Some [], isEnabledRef = ''Audit'',
                                  access_i_l = (), listKey_i = ''Audit'', isSingleton_i = False\<rparr>)],
         heap_r = [''Audit'' \<mapsto> \<lparr>type_l = True, query_l = True, create_l = True, update_l = True,
                                   delete_l = True, filter_l = JBool True, orderBy_l = JFun 0\<rparr>]\<rparr>"
        "''Audit''"]
  by (simp add: otherFlags_def eval_defs)

section \<open>Enablement of fields\<close>

text \<open>
  C1. For every list of a resolution and every field of it: if the resolved \<open>filter\<close>
  is truthy (\<open>true\<close> or a function) then \<open>read\<close> is true, and if the resolved
  \<open>orderBy\<close> is truthy then \<open>read\<close> is true.
\<close>

theorem read_gates_filter_and_orderBy:
  assumes "initialiseLists ext config = Inr res"
    and "(listKey, list) \<in> set (lists_r (registry_of res))"
    and "(fieldKey, field) \<in> set (fields_i list)"
  shows "(truthy (filter_f (isEnabled_i field)) \<longrightarrow> read_f (isEnabled_i field))
       \<and> (truthy (orderBy_f (isEnabled_i field)) \<longrightarrow> read_f (isEnabled_i field))"
proof -
  from assms obtain ie c fd f1 d where
    f1: "initialiseField ext (provider_k config) (map_of ie) listKey listKey fieldKey fd = Inr f1"
    and f: "field = f1\<lparr>dbField_i := d\<rparr>"
    by (rule final_field)
  from initialiseField_gate [OF f1] f show ?thesis by simp
qed


theorem read_gates_filter_and_orderBy_witness:
  "initialiseLists exampleExternals blogConfig = Inr blogResolution
   \<and> (''Post'', blogPost) \<in> set (lists_r (registry_of blogResolution))
   \<and> (''title'', the (map_of (fields_i blogPost) ''title'')) \<in> set (fields_i blogPost)
   \<and> truthy (filter_f (isEnabled_i (the (map_of (fields_i blogPost) ''title''))))
   \<and> truthy (orderBy_f (isEnabled_i (the (map_of (fields_i blogPost) ''title''))))
   \<and> read_f (isEnabled_i (the (map_of (fields_i blogPost) ''title'')))"
  using read_gates_filter_and_orderBy [of exampleExternals blogConfig blogResolution "''Post''" blogPost
          "''title''" "the (map_of (fields_i blogPost) ''title'')"]
  by (simp add: blog_resolves blog_lists blogPost_def)

section \<open>Enablement of lists\<close>

text \<open>
  C2. For every list of a resolution: if every field of the list has \<open>create\<close>
  disabled, the \<open>create\<close> flag of the list's \<open>isEnabled\<close> object is false in the
  final store, whatever the declaration of the list omitted; and the same for
  \<open>update\<close>.
\<close>

theorem no_enabled_field_disables_create_and_update:
  assumes "initialiseLists ext config = Inr res"
    and "(listKey, list) \<in> set (lists_r (registry_of res))"
  shows "((\<forall>(fieldKey, field) \<in> set (fields_i list). \<not> create_f (isEnabled_i field)) \<longrightarrow>
            (\<exists>e. heap_r (registry_of res) (isEnabledRef list) = Some e \<and> \<not> create_l e))
       \<and> ((\<forall>(fieldKey, field) \<in> set (fields_i list). \<not> update_f (isEnabled_i field)) \<longrightarrow>
            (\<exists>e. heap_r (registry_of res) (isEnabledRef list) = Some e \<and> \<not> update_l e))"
proof -
  from assms obtain ie where ref: "isEnabledRef list = listKey" and dom: "listKey \<in> fst ` set ie"
    and ie: "getIsEnabled (lists_k config) = Inr ie"
    by (rule final_list)
  from assms(1) obtain ie' where ie': "getIsEnabled (lists_k config) = Inr ie'"
    and heap: "heap_r (registry_of res) =
      fold (\<lambda>(listKey, list). cascadeList list) (lists_r (registry_of res)) (map_of ie')"
    by (rule final_heap)
  from ie ie' have same: "ie' = ie" by simp
  from dom obtain e0 where "map_of ie listKey = Some e0"
    by (metis map_of_eq_None_iff not_Some_eq)
  with ref have "map_of ie (isEnabledRef list) = Some e0" by simp
  from cascade_fold_disables [of listKey list "lists_r (registry_of res)" "map_of ie" e0, OF assms(2) this] heap same
  obtain e where e: "heap_r (registry_of res) (isEnabledRef list) = Some e"
    "\<not> hasAnEnabledCreateField list \<longrightarrow> \<not> create_l e"
    "\<not> hasAnEnabledUpdateField list \<longrightarrow> \<not> update_l e"
    by auto
  have c: "(\<forall>(fieldKey, field) \<in> set (fields_i list). \<not> create_f (isEnabled_i field))
        \<Longrightarrow> \<not> hasAnEnabledCreateField list"
    by (auto simp: hasAnEnabledCreateField_def list_ex_iff)
  have u: "(\<forall>(fieldKey, field) \<in> set (fields_i list). \<not> update_f (isEnabled_i field))
        \<Longrightarrow> \<not> hasAnEnabledUpdateField list"
    by (auto simp: hasAnEnabledUpdateField_def list_ex_iff)
  from e c u show ?thesis by blast
qed

theorem no_enabled_field_disables_create_and_update_witness:
  "initialiseLists exampleExternals blogConfig = Inr blogResolution
   \<and> (''Person'', blogPerson) \<in> set (lists_r (registry_of blogResolution))
   \<and> map (\<lambda>(fieldKey, field). create_f (isEnabled_i field)) (fields_i blogPerson) = [False]
   \<and> map (\<lambda>(fieldKey, field). update_f (isEnabled_i field)) (fields_i blogPerson) = [False]
   \<and> omit_c personList = JArr [JStr ''query'']
   \<and> (\<exists>e. heap_r (registry_of blogResolution) (isEnabledRef blogPerson) = Some e \<and> \<not> create_l e)
   \<and> (\<exists>e. heap_r (registry_of blogResolution) (isEnabledRef blogPerson) = Some e \<and> \<not> update_l e)"
  using no_enabled_field_disables_create_and_update [of exampleExternals blogConfig blogResolution "''Person''" blogPerson]
  by (simp add: blog_resolves blog_lists blogPerson_def personList_def listWith_def)

text \<open>
  C5. A list declared with \<open>graphql.omit: true\<close> is part of the resolution, and its
  \<open>isEnabled\<close> object in the final store has \<open>type\<close>, \<open>query\<close>, \<open>create\<close>,
  \<open>update\<close>, \<open>delete\<close>, \<open>filter\<close> and \<open>orderBy\<close> all \<open>false\<close>.
\<close>

theorem omit_true_disables_everything:
  assumes "initialiseLists ext config = Inr res"
    and "distinct (map fst (lists_k config))"
    and "(listKey, listConfig) \<in> set (lists_k config)"
    and "omit_c listConfig = JBool True"
  shows "(\<exists>list. (listKey, list) \<in> set (lists_r (registry_of res)))
       \<and> (\<forall>list. (listKey, list) \<in> set (lists_r (registry_of res)) \<longrightarrow>
            heap_r (registry_of res) (isEnabledRef list) =
              Some \<lparr>type_l = False, query_l = False, create_l = False, update_l = False,
                    delete_l = False, filter_l = JBool False, orderBy_l = JBool False\<rparr>)"
proof (intro conjI allI impI)
  show "\<exists>list. (listKey, list) \<in> set (lists_r (registry_of res))"
    using assms(1,3) by (rule final_exists)
next
  fix list
  assume list: "(listKey, list) \<in> set (lists_r (registry_of res))"
  let ?off = "\<lparr>type_l = False, query_l = False, create_l = False, update_l = False,
                delete_l = False, filter_l = JBool False, orderBy_l = JBool False\<rparr>"
  from assms(1) list obtain ie where ref: "isEnabledRef list = listKey"
    and ie: "getIsEnabled (lists_k config) = Inr ie"
    by (rule final_list)
  from assms(1) obtain ie' where ie': "getIsEnabled (lists_k config) = Inr ie'"
    and heap: "heap_r (registry_of res) =
      fold (\<lambda>(listKey, list). cascadeList list) (lists_r (registry_of res)) (map_of ie')"
    by (rule final_heap)
  from ie ie' have same: "ie' = ie" by simp
  from getIsEnabled_lookup [OF ie assms(2,3)] entry_omit_true [OF assms(4), of listKey]
  have h0: "map_of ie listKey = Some ?off" by auto
  from cascade_fold_mono [of "map_of ie" listKey ?off "lists_r (registry_of res)", OF h0] heap same
  obtain e where e: "heap_r (registry_of res) listKey = Some e" "\<not> create_l e" "\<not> update_l e"
    by auto
  from cascade_fold_otherFlags [of "lists_r (registry_of res)" "map_of ie" listKey] heap same h0 e(1)
  have "otherFlags e = otherFlags ?off" by simp
  with e(2,3) have "e = ?off" by (cases e) (simp add: otherFlags_def)
  with e(1) ref show "heap_r (registry_of res) (isEnabledRef list) = Some ?off" by simp
qed

theorem omit_true_disables_everything_witness:
  "initialiseLists exampleExternals blogConfig = Inr blogResolution
   \<and> distinct (map fst (lists_k blogConfig))
   \<and> (''Audit'', auditList) \<in> set (lists_k blogConfig)
   \<and> omit_c auditList = JBool True
   \<and> (''Audit'', blogAudit) \<in> set (lists_r (registry_of blogResolution))
   \<and> heap_r (registry_of blogResolution) (isEnabledRef blogAudit) =
        Some \<lparr>type_l = False, query_l = False, create_l = False, update_l = False,
              delete_l = False, filter_l = JBool False, orderBy_l = JBool False\<rparr>"
proof -
  have 1: "distinct (map fst (lists_k blogConfig))"
    by (simp add: blogConfig_def configOf_def)
  have 2: "(''Audit'', auditList) \<in> set (lists_k blogConfig)"
    by (simp add: blogConfig_def configOf_def)
  have 3: "omit_c auditList = JBool True"
    by (simp add: auditList_def listWith_def)
  have 4: "(''Audit'', blogAudit) \<in> set (lists_r (registry_of blogResolution))"
    by (simp add: blog_lists)
  from omit_true_disables_everything [OF blog_resolves 1 2 3] 4
  have "heap_r (registry_of blogResolution) (isEnabledRef blogAudit) =
        Some \<lparr>type_l = False, query_l = False, create_l = False, update_l = False,
              delete_l = False, filter_l = JBool False, orderBy_l = JBool False\<rparr>"
    by blast
  with blog_resolves 1 2 3 4 show ?thesis by blast
qed


section \<open>The generated types\<close>

text \<open>
  C3. In a resolution, take a list and a field of it whose resolved \<open>read\<close> is false,
  or which is a relation field whose target list has \<open>query\<close> disabled in the final
  store. Whenever the thunk of the list's output type returns its field set, no entry
  of that set was built from this field (every entry records the field it belongs to as
  the \<open>fieldPath\<close> given to \<open>outputTypeField\<close>); and the key of the field is not a
  key of the field set at all, unless some field of the list declares an extra output
  field of that very name. The keys of the fields of a list are distinct, as the keys
  of a JavaScript object are.
\<close>

theorem hidden_field_not_in_output_type:
  assumes init: "initialiseLists ext config = Inr res"
    and t: "(listKey, t) \<in> set (types_of res)"
    and l: "map_of (lists_r (registry_of res)) listKey = Some list"
    and d: "distinct (map fst (fields_i list))"
    and f: "(fieldKey, field) \<in> set (fields_i list)"
    and hidden: "\<not> read_f (isEnabled_i field)
       \<or> (\<exists>tk x target e. dbField_i field = Some (Relation tk x)
             \<and> (tk, target) \<in> set (lists_r (registry_of res))
             \<and> heap_r (registry_of res) (isEnabledRef target) = Some e \<and> \<not> query_l e)"
    and out: "output_t t (registry_of res) = Inr out"
  shows "(\<forall>(name, entry) \<in> set out. of_fieldPath entry \<noteq> fieldKey)
       \<and> ((\<forall>(k', f') \<in> set (fields_i list). fieldKey \<notin> fst ` set (extraOutputFields_i f'))
            \<longrightarrow> fieldKey \<notin> fst ` set out)"
proof -
  from init t obtain ie where ie: "getIsEnabled (lists_k config) = Inr ie"
    and ot: "output_t t = output_fields listKey (map (\<lambda>(key, e). (key, key)) ie)"
    by (rule final_types)
  let ?im = "map (\<lambda>(key, e). (key, key)) ie"
  let ?h = "heap_r (registry_of res)"
  from out ot have "output_fields listKey ?im (registry_of res) = Inr out" by simp
  from this l obtain ess where ess: "traverse (outputEntries listKey ?im ?h) (fields_i list) = Inr ess"
    and o: "out = fromEntries (concat ess)"
    by (rule output_fields_Inr)
  have none: "\<not> (\<exists>es n entry. outputEntries listKey ?im ?h (fieldKey, field) = Inr es \<and> (n, entry) \<in> set es)"
  proof
    assume "\<exists>es n entry. outputEntries listKey ?im ?h (fieldKey, field) = Inr es \<and> (n, entry) \<in> set es"
    then obtain es n entry where "outputEntries listKey ?im ?h (fieldKey, field) = Inr es"
      "(n, entry) \<in> set es" by blast
    from outputEntries_Inr [OF this]
    obtain db where rd: "read_f (isEnabled_i field)" and db: "dbField_i field = Some db"
      "targetNotQueryable ?im ?h db = Inr False" by blast
    from hidden rd obtain tk x target e where rel: "dbField_i field = Some (Relation tk x)"
      and tg: "(tk, target) \<in> set (lists_r (registry_of res))"
      and e: "?h (isEnabledRef target) = Some e" "\<not> query_l e"
      by blast
    from init tg obtain ie' where ie': "getIsEnabled (lists_k config) = Inr ie'"
      and ref: "isEnabledRef target = tk" and dom: "tk \<in> fst ` set ie'"
      by (rule final_list)
    from ie ie' dom have "map_of ?im tk = Some tk" by (simp add: map_of_selfref)
    from target_hidden [OF this, of ?h e x] e ref
    have "targetNotQueryable ?im ?h (Relation tk x) = Inr True" by simp
    with db rel show False by simp
  qed
  have origin: "\<And>n entry. (n, entry) \<in> set (concat ess) \<Longrightarrow>
      of_fieldPath entry \<noteq> fieldKey
      \<and> (n = fieldKey \<longrightarrow> (\<exists>k' f'. (k', f') \<in> set (fields_i list) \<and> fieldKey \<in> fst ` set (extraOutputFields_i f')))"
  proof -
    fix n entry
    assume "(n, entry) \<in> set (concat ess)"
    from output_origin [OF ess this]
    obtain fk f' es where o: "(fk, f') \<in> set (fields_i list)"
      "outputEntries listKey ?im ?h (fk, f') = Inr es" "(n, entry) \<in> set es" by blast
    from outputEntries_Inr [OF o(2,3)]
    have p: "of_fieldPath entry = fk" "n = fk \<or> n \<in> fst ` set (extraOutputFields_i f')" by simp_all
    have ne: "fk \<noteq> fieldKey"
    proof
      assume "fk = fieldKey"
      with o(1) f d have "f' = field" by (metis eq_key_imp_eq_value)
      with o(2,3) \<open>fk = fieldKey\<close> none show False by blast
    qed
    with p o(1) show "of_fieldPath entry \<noteq> fieldKey
      \<and> (n = fieldKey \<longrightarrow> (\<exists>k' f'. (k', f') \<in> set (fields_i list) \<and> fieldKey \<in> fst ` set (extraOutputFields_i f')))"
      by blast
  qed
  have 1: "\<forall>(name, entry) \<in> set out. of_fieldPath entry \<noteq> fieldKey"
    using origin fromEntries_subset [of "concat ess"] o by blast
  have 2: "(\<forall>(k', f') \<in> set (fields_i list). fieldKey \<notin> fst ` set (extraOutputFields_i f'))
            \<longrightarrow> fieldKey \<notin> fst ` set out"
  proof (intro impI notI)
    assume no: "\<forall>(k', f') \<in> set (fields_i list). fieldKey \<notin> fst ` set (extraOutputFields_i f')"
    assume "fieldKey \<in> fst ` set out"
    with o have "fieldKey \<in> fst ` set (concat ess)" by (simp add: fromEntries_keys)
    then obtain entry where "(fieldKey, entry) \<in> set (concat ess)" by force
    from origin [OF this] no show False by blast
  qed
  from 1 2 show ?thesis ..
qed

theorem hidden_field_not_in_output_type_witness:
  "initialiseLists exampleExternals blogConfig = Inr blogResolution
   \<and> (''Post'', blogTypes ''Post'' postList True) \<in> set (types_of blogResolution)
   \<and> map_of (lists_r (registry_of blogResolution)) ''Post'' = Some blogPost
   \<and> distinct (map fst (fields_i blogPost))
   \<and> (''author'', the (map_of (fields_i blogPost) ''author'')) \<in> set (fields_i blogPost)
   \<and> dbField_i (the (map_of (fields_i blogPost) ''author'')) = Some (Relation ''Person'' None)
   \<and> (''Person'', blogPerson) \<in> set (lists_r (registry_of blogResolution))
   \<and> map_option query_l (heap_r (registry_of blogResolution) (isEnabledRef blogPerson)) = Some False
   \<and> map (\<lambda>(name, entry). (name, of_fieldPath entry))
        (projr (output_t (blogTypes ''Post'' postList True) (registry_of blogResolution)))
      = [(''id'', ''id''), (''slug'', ''slug''), (''title'', ''title'')]
   \<and> ''author'' \<notin> fst ` set (projr (output_t (blogTypes ''Post'' postList True) (registry_of blogResolution)))"
proof -
  let ?author = "the (map_of (fields_i blogPost) ''author'')"
  have 2: "(''Post'', blogTypes ''Post'' postList True) \<in> set (types_of blogResolution)"
    by (simp add: blog_types)
  have 3: "map_of (lists_r (registry_of blogResolution)) ''Post'' = Some blogPost"
    by (simp add: blog_lists)
  have 4: "distinct (map fst (fields_i blogPost))"
    by (simp add: blogPost_def)
  have 5: "(''author'', ?author) \<in> set (fields_i blogPost)"
    by (simp add: blogPost_def)
  have 6: "dbField_i ?author = Some (Relation ''Person'' None)"
    by (simp add: blogPost_def)
  have 7: "(''Person'', blogPerson) \<in> set (lists_r (registry_of blogResolution))"
    by (simp add: blog_lists)
  have 8: "heap_r (registry_of blogResolution) (isEnabledRef blogPerson) =
     Some \<lparr>type_l = True, query_l = False, create_l = False, update_l = False,
           delete_l = True, filter_l = JBool True, orderBy_l = JBool True\<rparr>"
    by (simp add: blogPerson_def blog_heap_Person)
  have hidden: "\<not> read_f (isEnabled_i ?author)
       \<or> (\<exists>tk x target e. dbField_i ?author = Some (Relation tk x)
             \<and> (tk, target) \<in> set (lists_r (registry_of blogResolution))
             \<and> heap_r (registry_of blogResolution) (isEnabledRef target) = Some e \<and> \<not> query_l e)"
    using 6 7 8 by auto
  have noextra: "\<forall>(k', f') \<in> set (fields_i blogPost). ''author'' \<notin> fst ` set (extraOutputFields_i f')"
    by (simp add: blogPost_def)
  from hidden_field_not_in_output_type [OF blog_resolves 2 3 4 5 hidden blog_output_Post] noextra
  have 9: "''author'' \<notin> fst ` set (projr (output_t (blogTypes ''Post'' postList True) (registry_of blogResolution)))"
    by (simp add: blog_output_Post)
  have 10: "map (\<lambda>(name, entry). (name, of_fieldPath entry))
        (projr (output_t (blogTypes ''Post'' postList True) (registry_of blogResolution)))
      = [(''id'', ''id''), (''slug'', ''slug''), (''title'', ''title'')]"
    by (simp add: blog_output_Post)
  from 8 have q8: "map_option query_l (heap_r (registry_of blogResolution) (isEnabledRef blogPerson)) = Some False"
    by simp
  from blog_resolves 2 3 4 5 6 7 q8 9 10 show ?thesis by blast
qed


text \<open>
  C4. In a resolution, take a list whose \<open>type\<close> flag is true in the final store.
  Each of its four relation inputs (to-many and to-one, for create and for update)
  exists, and its thunk, evaluated on the final registry, returns a field set that has
  the key \<open>create\<close> exactly when the \<open>create\<close> flag of the list is true in the final
  store (that is, after the cascading disablement), and always has the key
  \<open>connect\<close>.
\<close>

theorem relation_inputs_follow_final_create:
  assumes "initialiseLists ext config = Inr res"
    and "(listKey, list) \<in> set (lists_r (registry_of res))"
    and "(listKey, t) \<in> set (types_of res)"
    and "heap_r (registry_of res) (isEnabledRef list) = Some e"
    and "type_l e"
  shows "list_all (\<lambda>variant. \<exists>thunk obj. variant = Some thunk \<and> thunk (registry_of res) = Inr obj
              \<and> (''create'' \<in> fst ` set obj \<longleftrightarrow> create_l e) \<and> ''connect'' \<in> fst ` set obj)
           [relateToManyForCreate t, relateToManyForUpdate t, relateToOneForCreate t, relateToOneForUpdate t]"
proof -
  from assms(1,2) obtain ie where ref: "isEnabledRef list = listKey"
    and ie: "getIsEnabled (lists_k config) = Inr ie"
    by (rule final_list)
  from assms(1) obtain ie' where ie': "getIsEnabled (lists_k config) = Inr ie'"
    and heap: "heap_r (registry_of res) =
      fold (\<lambda>(listKey, list). cascadeList list) (lists_r (registry_of res)) (map_of ie')"
    by (rule final_heap)
  from assms(1,3) obtain ie'' e0 where ie'': "getIsEnabled (lists_k config) = Inr ie''"
    and e0: "map_of ie'' listKey = Some e0"
    and t: "relateToManyForCreate t =
           (if type_l e0 then Some (\<lambda>reg. relateToManyForCreate_fields listKey listKey (heap_r reg)) else None)"
      "relateToManyForUpdate t =
           (if type_l e0 then Some (\<lambda>reg. relateToManyForUpdate_fields listKey listKey (heap_r reg)) else None)"
      "relateToOneForCreate t =
           (if type_l e0 then Some (\<lambda>reg. relateToOneForCreate_fields listKey listKey (heap_r reg)) else None)"
      "relateToOneForUpdate t =
           (if type_l e0 then Some (\<lambda>reg. relateToOneForUpdate_fields listKey listKey (heap_r reg)) else None)"
    by (rule final_types)
  from ie ie' ie'' have same: "ie' = ie" "ie'' = ie" by simp_all
  from assms(4) ref have e: "heap_r (registry_of res) listKey = Some e" by simp
  from cascade_fold_otherFlags [of "lists_r (registry_of res)" "map_of ie" listKey] heap same e0 e
  have "otherFlags e = otherFlags e0" by simp
  with assms(5) have ty: "type_l e0" by (simp add: otherFlags_def)
  from relateTo_keys [of "heap_r (registry_of res)" listKey e listKey, OF e] t ty show ?thesis by simp
qed

theorem relation_inputs_follow_final_create_witness:
  "initialiseLists exampleExternals blogConfig = Inr blogResolution
   \<and> (''Person'', blogPerson) \<in> set (lists_r (registry_of blogResolution))
   \<and> (''Person'', blogTypes ''Person'' personList True) \<in> set (types_of blogResolution)
   \<and> heap_r (registry_of blogResolution) (isEnabledRef blogPerson) =
        Some \<lparr>type_l = True, query_l = False, create_l = False, update_l = False,
              delete_l = True, filter_l = JBool True, orderBy_l = JBool True\<rparr>
   \<and> map (\<lambda>variant. map_option (\<lambda>thunk. thunk (registry_of blogResolution)) variant)
        [relateToManyForCreate (blogTypes ''Person'' personList True),
         relateToManyForUpdate (blogTypes ''Person'' personList True),
         relateToOneForCreate (blogTypes ''Person'' personList True),
         relateToOneForUpdate (blogTypes ''Person'' personList True)]
      = [Some (Inr [(''connect'', mkArg (GList (GNonNull (WhereUniqueInput ''Person''))))]),
         Some (Inr [(''disconnect'', mkArg (GList (GNonNull (WhereUniqueInput ''Person'')))),
                    (''set'', mkArg (GList (GNonNull (WhereUniqueInput ''Person'')))),
                    (''connect'', mkArg (GList (GNonNull (WhereUniqueInput ''Person''))))]),
         Some (Inr [(''connect'', mkArg (WhereUniqueInput ''Person''))]),
         Some (Inr [(''connect'', mkArg (WhereUniqueInput ''Person'')),
                    (''disconnect'', mkArg GBoolean)])]"
proof -
  have 2: "(''Person'', blogPerson) \<in> set (lists_r (registry_of blogResolution))"
    by (simp add: blog_lists)
  have 3: "(''Person'', blogTypes ''Person'' personList True) \<in> set (types_of blogResolution)"
    by (simp add: blog_types)
  have 4: "heap_r (registry_of blogResolution) (isEnabledRef blogPerson) =
        Some \<lparr>type_l = True, query_l = False, create_l = False, update_l = False,
              delete_l = True, filter_l = JBool True, orderBy_l = JBool True\<rparr>"
    by (simp add: blogPerson_def blog_heap_Person)
  from relation_inputs_follow_final_create [OF blog_resolves 2 3 4]
  have "list_all (\<lambda>variant. \<exists>thunk obj. variant = Some thunk \<and> thunk (registry_of blogResolution) = Inr obj
              \<and> (''create'' \<notin> fst ` set obj) \<and> ''connect'' \<in> fst ` set obj)
           [relateToManyForCreate (blogTypes ''Person'' personList True),
            relateToManyForUpdate (blogTypes ''Person'' personList True),
            relateToOneForCreate (blogTypes ''Person'' personList True),
            relateToOneForUpdate (blogTypes ''Person'' personList True)]"
    by simp
  note from_theorem = this
  have 5: "map (\<lambda>variant. map_option (\<lambda>thunk. thunk (registry_of blogResolution)) variant)
        [relateToManyForCreate (blogTypes ''Person'' personList True),
         relateToManyForUpdate (blogTypes ''Person'' personList True),
         relateToOneForCreate (blogTypes ''Person'' personList True),
         relateToOneForUpdate (blogTypes ''Person'' personList True)]
      = [Some (Inr [(''connect'', mkArg (GList (GNonNull (WhereUniqueInput ''Person''))))]),
         Some (Inr [(''disconnect'', mkArg (GList (GNonNull (WhereUniqueInput ''Person'')))),
                    (''set'', mkArg (GList (GNonNull (WhereUniqueInput ''Person'')))),
                    (''connect'', mkArg (GList (GNonNull (WhereUniqueInput ''Person''))))]),
         Some (Inr [(''connect'', mkArg (WhereUniqueInput ''Person''))]),
         Some (Inr [(''connect'', mkArg (WhereUniqueInput ''Person'')),
                    (''disconnect'', mkArg GBoolean)])]"
    by (simp add: blogTypes_def relateToManyForCreate_fields_def relateToManyForUpdate_fields_def
        relateToOneForCreate_fields_def relateToOneForUpdate_fields_def deref_def blog_heap_Person)
  from blog_resolves 2 3 4 5 from_theorem show ?thesis by blast
qed

text \<open>
  C10. Every list of the configuration has its types in the resolution, and in their
  paginated-query arguments \<open>where\<close> defaults to \<open>{ id: { equals: '1' } }\<close> when the
  list is declared a singleton and to \<open>{}\<close> otherwise, \<open>skip\<close> defaults to \<open>0\<close>, and
  \<open>take\<close> has no default.
\<close>

theorem findManyArgs_defaults:
  assumes "initialiseLists ext config = Inr res"
    and "distinct (map fst (lists_k config))"
    and "(listKey, listConfig) \<in> set (lists_k config)"
  shows "(\<exists>t. (listKey, t) \<in> set (types_of res))
       \<and> (\<forall>t. (listKey, t) \<in> set (types_of res) \<longrightarrow>
            defaultValue (where_a (findManyArgs_t t)) =
              Some (if isSingleton_c listConfig = Some True
                    then VObject [(''id'', VObject [(''equals'', VString ''1'')])]
                    else VObject [])
            \<and> defaultValue (skip_a (findManyArgs_t t)) = Some (VInt 0)
            \<and> defaultValue (take_a (findManyArgs_t t)) = None)"
proof (intro conjI allI impI)
  show "\<exists>t. (listKey, t) \<in> set (types_of res)"
    using assms(1,3) by (rule final_types_exists)
next
  fix t
  assume "(listKey, t) \<in> set (types_of res)"
  with assms(1) obtain c where c: "(listKey, c) \<in> set (lists_k config)"
    and t: "findManyArgs_t t = mkFindManyArgs listKey c"
    by (rule final_types)
  from distinct_key_unique [OF assms(2) c assms(3)] have "c = listConfig" .
  with t have t': "findManyArgs_t t = mkFindManyArgs listKey listConfig" by simp
  show "defaultValue (where_a (findManyArgs_t t)) =
              Some (if isSingleton_c listConfig = Some True
                    then VObject [(''id'', VObject [(''equals'', VString ''1'')])]
                    else VObject [])"
    by (simp add: t' mkFindManyArgs_def mkArgDefault_def)
  show "defaultValue (skip_a (findManyArgs_t t)) = Some (VInt 0)"
    by (simp add: t' mkFindManyArgs_def mkArgDefault_def)
  show "defaultValue (take_a (findManyArgs_t t)) = None"
    by (simp add: t' mkFindManyArgs_def mkArg_def)
qed


theorem findManyArgs_defaults_witness:
  "initialiseLists exampleExternals blogConfig = Inr blogResolution
   \<and> distinct (map fst (lists_k blogConfig))
   \<and> (''Person'', personList) \<in> set (lists_k blogConfig)
   \<and> isSingleton_c personList = Some True
   \<and> (''Person'', blogTypes ''Person'' personList True) \<in> set (types_of blogResolution)
   \<and> defaultValue (where_a (findManyArgs_t (blogTypes ''Person'' personList True)))
        = Some (VObject [(''id'', VObject [(''equals'', VString ''1'')])])
   \<and> defaultValue (skip_a (findManyArgs_t (blogTypes ''Person'' personList True))) = Some (VInt 0)
   \<and> defaultValue (take_a (findManyArgs_t (blogTypes ''Person'' personList True))) = None
   \<and> (''Post'', postList) \<in> set (lists_k blogConfig)
   \<and> isSingleton_c postList = None
   \<and> (''Post'', blogTypes ''Post'' postList True) \<in> set (types_of blogResolution)
   \<and> defaultValue (where_a (findManyArgs_t (blogTypes ''Post'' postList True))) = Some (VObject [])"
proof -
  have 1: "distinct (map fst (lists_k blogConfig))"
    by (simp add: blogConfig_def configOf_def)
  have 2: "(''Person'', personList) \<in> set (lists_k blogConfig)"
    "(''Post'', postList) \<in> set (lists_k blogConfig)"
    by (simp_all add: blogConfig_def configOf_def)
  have 3: "isSingleton_c personList = Some True" "isSingleton_c postList = None"
    by (simp_all add: personList_def postList_def listWith_def)
  have 4: "(''Person'', blogTypes ''Person'' personList True) \<in> set (types_of blogResolution)"
    "(''Post'', blogTypes ''Post'' postList True) \<in> set (types_of blogResolution)"
    by (simp_all add: blog_types)
  from findManyArgs_defaults [OF blog_resolves 1 2(1)] 3(1) 4(1)
  have 5: "defaultValue (where_a (findManyArgs_t (blogTypes ''Person'' personList True)))
        = Some (VObject [(''id'', VObject [(''equals'', VString ''1'')])])
   \<and> defaultValue (skip_a (findManyArgs_t (blogTypes ''Person'' personList True))) = Some (VInt 0)
   \<and> defaultValue (take_a (findManyArgs_t (blogTypes ''Person'' personList True))) = None"
    by simp
  from findManyArgs_defaults [OF blog_resolves 1 2(2)] 3(2) 4(2)
  have 6: "defaultValue (where_a (findManyArgs_t (blogTypes ''Post'' postList True))) = Some (VObject [])"
    by simp
  from blog_resolves 1 2 3 4 5 6 show ?thesis by blast
qed

text \<open>
  C8 (as amended). The claim reads: the unique-filter input always has the key \<open>id\<close>,
  and a declared field key is a key of the input if and only if the field declares a
  unique-filter argument and its resolved \<open>read\<close> and \<open>filter\<close> are truthy. The
  input is built as \<open>{ ...entries, id: graphql.arg({ type: graphql.ID }) }\<close>, so the
  key \<open>id\<close> is there whatever a declared field \<open>id\<close> declares or allows. What holds: the
  thunk of the unique-filter input returns a field set that has the key \<open>id\<close>, and a
  field key other than \<open>id\<close> is a key of it exactly when the field declares a
  unique-filter argument and its resolved \<open>read\<close> and \<open>filter\<close> are truthy. The keys
  of the fields of a list are distinct, as the keys of a JavaScript object are.
\<close>

theorem uniqueWhere_has_id_and_unique_filterable_fields:
  assumes "initialiseLists ext config = Inr res"
    and "(listKey, t) \<in> set (types_of res)"
    and "map_of (lists_r (registry_of res)) listKey = Some list"
    and "distinct (map fst (fields_i list))"
  shows "\<exists>obj. uniqueWhere_t t (registry_of res) = Inr obj
       \<and> ''id'' \<in> fst ` set obj
       \<and> (\<forall>(fieldKey, field) \<in> set (fields_i list). fieldKey \<noteq> ''id'' \<longrightarrow>
            (fieldKey \<in> fst ` set obj \<longleftrightarrow>
               argOf (uniqueWhere_in (input_i field)) \<noteq> None
               \<and> read_f (isEnabled_i field) \<and> truthy (filter_f (isEnabled_i field))))"
proof -
  let ?obj = "AList.update ''id'' (mkArg GID)
                 (fromEntries (concat (map uniqueWhereEntries (fields_i list))))"
  from assms(1,2) have "uniqueWhere_t t = uniqueWhere_fields listKey"
    by (rule final_types)
  with assms(3) have obj: "uniqueWhere_t t (registry_of res) = Inr ?obj"
    by (simp add: uniqueWhere_fields_def)
  have keys: "fst ` set ?obj = insert ''id'' (fst ` set (concat (map uniqueWhereEntries (fields_i list))))"
    by (simp add: dom_update fromEntries_keys)
  have "\<forall>(fieldKey, field) \<in> set (fields_i list). fieldKey \<noteq> ''id'' \<longrightarrow>
            (fieldKey \<in> fst ` set ?obj \<longleftrightarrow>
               argOf (uniqueWhere_in (input_i field)) \<noteq> None
               \<and> read_f (isEnabled_i field) \<and> truthy (filter_f (isEnabled_i field)))"
  proof (intro ballI, clarify)
    fix fieldKey field
    assume f: "(fieldKey, field) \<in> set (fields_i list)" and ne: "fieldKey \<noteq> ''id''"
    have one: "(\<exists>f'. (fieldKey, f') \<in> set (fields_i list) \<and> argOf (uniqueWhere_in (input_i f')) \<noteq> None
              \<and> read_f (isEnabled_i f') \<and> truthy (filter_f (isEnabled_i f')))
          \<longleftrightarrow> (argOf (uniqueWhere_in (input_i field)) \<noteq> None
              \<and> read_f (isEnabled_i field) \<and> truthy (filter_f (isEnabled_i field)))"
      using f assms(4) by (metis eq_key_imp_eq_value)
    from ne keys have "fieldKey \<in> fst ` set ?obj \<longleftrightarrow>
        fieldKey \<in> fst ` set (concat (map uniqueWhereEntries (fields_i list)))"
      by blast
    with uniqueWhere_keys [of fieldKey "fields_i list"] one
    show "(fieldKey \<in> fst ` set ?obj) =
           (argOf (uniqueWhere_in (input_i field)) \<noteq> None
            \<and> read_f (isEnabled_i field) \<and> truthy (filter_f (isEnabled_i field)))"
      by blast
  qed
  with obj keys show ?thesis by simp
qed

theorem uniqueWhere_has_id_and_unique_filterable_fields_witness:
  "initialiseLists exampleExternals blogConfig = Inr blogResolution
   \<and> (''Post'', blogTypes ''Post'' postList True) \<in> set (types_of blogResolution)
   \<and> map_of (lists_r (registry_of blogResolution)) ''Post'' = Some blogPost
   \<and> distinct (map fst (fields_i blogPost))
   \<and> uniqueWhere_t (blogTypes ''Post'' postList True) (registry_of blogResolution)
        = Inr [(''id'', mkArg GID), (''slug'', mkArg GID)]
   \<and> map (\<lambda>(fieldKey, field). (fieldKey, argOf (uniqueWhere_in (input_i field)) \<noteq> None
               \<and> read_f (isEnabled_i field) \<and> truthy (filter_f (isEnabled_i field))))
        (fields_i blogPost)
      = [(''id'', True), (''slug'', True), (''title'', False), (''author'', False), (''secret'', False)]"
proof -
  have 2: "(''Post'', blogTypes ''Post'' postList True) \<in> set (types_of blogResolution)"
    by (simp add: blog_types)
  have 3: "map_of (lists_r (registry_of blogResolution)) ''Post'' = Some blogPost"
    by (simp add: blog_lists)
  have 4: "distinct (map fst (fields_i blogPost))"
    by (simp add: blogPost_def)
  from uniqueWhere_has_id_and_unique_filterable_fields [OF blog_resolves 2 3 4]
  have 5: "''id'' \<in> fst ` set (projr (uniqueWhere_t (blogTypes ''Post'' postList True) (registry_of blogResolution)))"
    by auto
  have 6: "map (\<lambda>(fieldKey, field). (fieldKey, argOf (uniqueWhere_in (input_i field)) \<noteq> None
               \<and> read_f (isEnabled_i field) \<and> truthy (filter_f (isEnabled_i field))))
        (fields_i blogPost)
      = [(''id'', True), (''slug'', True), (''title'', False), (''author'', False), (''secret'', False)]"
    by (simp add: blogPost_def)
  from blog_resolves 2 3 4 5 6 blog_uniqueWhere_Post show ?thesis by blast
qed

text \<open>
  C8 (counterexample). A list in which no field declares a unique-filter argument:
  its declared field \<open>id\<close> declares none, and \<open>id\<close> is a key of the unique-filter
  input.
\<close>

theorem id_in_uniqueWhere_though_not_declared_unique:
  "initialiseLists exampleExternals tagConfig = Inr tagResolution
   \<and> map (\<lambda>(fieldKey, field). (fieldKey, argOf (uniqueWhere_in (input_i field))))
        (fields_i (the (map_of (lists_r (registry_of tagResolution)) ''Tag'')))
      = [(''id'', None)]
   \<and> map_option (\<lambda>t. uniqueWhere_t t (registry_of tagResolution)) (map_of (types_of tagResolution) ''Tag'')
      = Some (Inr [(''id'', mkArg GID)])"
  by (simp add: tag_resolves tagResolution_def tagConfig_def tagList_def eval_defs
        uniqueWhere_fields_def uniqueWhereEntries_def fromEntries_def)

end
